theory Spec2Isabelle
  imports Main
begin

section \<open>Python values\<close>

text \<open>
  A Python \<open>str\<close> is a sequence of Unicode code points, and \<open>ord\<close> reads one
  off. Two of the tier separators are outside ASCII, so a string is modelled as the list of its
  code points; \<open>pstr\<close> writes an ASCII literal.
\<close>

type_synonym pystr = "nat list"

definition pstr :: "string \<Rightarrow> pystr" where
  "pstr s = map of_char s"

text \<open>The exceptions the two modules can raise.\<close>

datatype py_error =
  KeyError | IndexError | ValueError | UnicodeEncodeError | OverflowError | OSError

text \<open>\<open>s[i]\<close> for an index \<open>i\<close> that may be negative.\<close>

definition py_getitem :: "pystr \<Rightarrow> int \<Rightarrow> py_error + nat" where
  "py_getitem s i =
     (if 0 \<le> i \<and> i < int (length s) then Inr (s ! nat i)
      else if i < 0 \<and> - int (length s) \<le> i then Inr (s ! nat (int (length s) + i))
      else Inl IndexError)"

text \<open>\<open>s[:-2]\<close> and \<open>s[-2:]\<close>: a string shorter than two characters has an empty
  front and is its own tail.\<close>

definition slice_to_minus2 :: "pystr \<Rightarrow> pystr" where
  "slice_to_minus2 s = (if length s < 2 then [] else take (length s - 2) s)"

definition slice_from_minus2 :: "pystr \<Rightarrow> pystr" where
  "slice_from_minus2 s = (if length s < 2 then s else drop (length s - 2) s)"

text \<open>\<open>s.startswith(p)\<close>.\<close>

definition startswith :: "pystr \<Rightarrow> pystr \<Rightarrow> bool" where
  "startswith s p = (take (length p) s = p)"

text \<open>\<open>s.find(sub)\<close>: the index of the first occurrence, \<open>None\<close> for Python's -1.
  \<open>sub in s\<close> and \<open>s.index(sub)\<close> are read off it.\<close>

fun py_find :: "pystr \<Rightarrow> pystr \<Rightarrow> nat option" where
  "py_find sub [] = (if sub = [] then Some 0 else None)"
| "py_find sub (c # cs) =
     (if startswith (c # cs) sub then Some 0 else map_option Suc (py_find sub cs))"

definition py_contains :: "pystr \<Rightarrow> pystr \<Rightarrow> bool" where
  "py_contains sub s = (py_find sub s \<noteq> None)"

text \<open>\<open>s.split(sep)\<close>: cut at each occurrence of \<open>sep\<close>, scanning from the left; an
  empty separator raises \<open>ValueError\<close>.\<close>

function split_nonempty :: "pystr \<Rightarrow> pystr \<Rightarrow> pystr list" where
  "split_nonempty sep s =
     (if sep = [] then [s]
      else (case py_find sep s of
              None \<Rightarrow> [s]
            | Some i \<Rightarrow> take i s # split_nonempty sep (drop (i + length sep) s)))"
  by pat_completeness auto
termination
proof (relation "measure (\<lambda>(sep, s). length s)")
  show "wf (measure (\<lambda>(sep, s). length s))" by simp
next
  fix sep s :: pystr and i :: nat
  assume ne: "sep \<noteq> []" and found: "py_find sep s = Some i"
  have "s \<noteq> []" using ne found by (cases s) auto
  moreover have "0 < length sep" using ne by simp
  ultimately have "length (drop (i + length sep) s) < length s" by simp
  then show "((sep, drop (i + length sep) s), (sep, s)) \<in> measure (\<lambda>(sep, s). length s)"
    by simp
qed

declare split_nonempty.simps [simp del]

definition py_split :: "pystr \<Rightarrow> pystr \<Rightarrow> py_error + pystr list" where
  "py_split sep s = (if sep = [] then Inl ValueError else Inr (split_nonempty sep s))"

text \<open>\<open>s.split()\<close>: the maximal runs of non-whitespace characters. Whitespace is what
  \<open>str.isspace\<close> accepts.\<close>

definition is_space :: "nat \<Rightarrow> bool" where
  "is_space c =
     ((9 \<le> c \<and> c \<le> 13) \<or> (28 \<le> c \<and> c \<le> 32) \<or> c = 133 \<or> c = 160 \<or> c = 5760
      \<or> (8192 \<le> c \<and> c \<le> 8202) \<or> c = 8232 \<or> c = 8233 \<or> c = 8239 \<or> c = 8287
      \<or> c = 12288)"

fun split_ws_from :: "pystr \<Rightarrow> pystr \<Rightarrow> pystr list" where
  "split_ws_from cur [] = (if cur = [] then [] else [cur])"
| "split_ws_from cur (c # cs) =
     (if is_space c
      then (if cur = [] then split_ws_from [] cs else cur # split_ws_from [] cs)
      else split_ws_from (cur @ [c]) cs)"

definition py_split_ws :: "pystr \<Rightarrow> pystr list" where
  "py_split_ws s = split_ws_from [] s"

text \<open>The format specifications \<open>:X\<close> and \<open>:02X\<close>, on the non-negative integers the
  code formats (a residue, a month, a day).\<close>

definition hex_digit :: "nat \<Rightarrow> nat" where
  "hex_digit d = (if d < 10 then 48 + d else 55 + d)"

fun format_X :: "nat \<Rightarrow> pystr" where
  "format_X n =
     (if n < 16 then [hex_digit n] else format_X (n div 16) @ [hex_digit (n mod 16)])"

declare format_X.simps [simp del]

definition format_02X :: "nat \<Rightarrow> pystr" where
  "format_02X n = (let h = format_X n in replicate (2 - length h) 48 @ h)"

text \<open>\<open>string.ascii_uppercase\<close> and \<open>string.digits\<close>.\<close>

definition ascii_uppercase :: pystr where
  "ascii_uppercase = pstr ''ABCDEFGHIJKLMNOPQRSTUVWXYZ''"

definition digits :: pystr where
  "digits = pstr ''0123456789''"

section \<open>Library functions\<close>

text \<open>
  The modules call into \<open>hashlib\<close>, \<open>random\<close>, \<open>str\<close> and \<open>int\<close>. What these
  compute is not part of the repository, so the model takes them as parameters:
  \<^item> \<open>sha256_hexdigest s\<close> is \<open>hashlib.sha256(s.encode()).hexdigest()\<close> for a string that
    encodes;
  \<^item> \<open>random_seed a\<close> is the state of the process-wide generator after \<open>random.seed(a)\<close>
    (seeding discards the previous state), and \<open>random_choice st seq\<close> is the element
    \<open>random.choice(seq)\<close> returns in state \<open>st\<close>, with the state it leaves;
  \<^item> \<open>upper_nonascii c\<close> is \<open>c.upper()\<close> for a character outside ASCII (it may be
    several characters), \<open>str_lower s\<close> is \<open>s.lower()\<close>;
  \<^item> \<open>int_base16 s\<close> is \<open>int(s, 16)\<close>, \<open>None\<close> when it raises.
\<close>

record 's pylib =
  sha256_hexdigest :: "pystr \<Rightarrow> pystr"
  random_seed :: "pystr \<Rightarrow> 's"
  random_choice :: "'s \<Rightarrow> pystr \<Rightarrow> nat \<times> 's"
  upper_nonascii :: "nat \<Rightarrow> pystr"
  str_lower :: "pystr \<Rightarrow> pystr"
  int_base16 :: "pystr \<Rightarrow> int option"

text \<open>\<open>s.upper()\<close> maps each character on its own; inside ASCII only the letters a-z
  change.\<close>

definition upper_char :: "'s pylib \<Rightarrow> nat \<Rightarrow> pystr" where
  "upper_char lib c =
     (if 97 \<le> c \<and> c \<le> 122 then [c - 32]
      else if c < 128 then [c]
      else upper_nonascii lib c)"

definition py_upper :: "'s pylib \<Rightarrow> pystr \<Rightarrow> pystr" where
  "py_upper lib s = concat (map (upper_char lib) s)"

text \<open>\<open>s.encode()\<close> raises \<open>UnicodeEncodeError\<close> on a surrogate code point.\<close>

definition encodable :: "pystr \<Rightarrow> bool" where
  "encodable s = list_all (\<lambda>c. c < 55296 \<or> 57343 < c) s"

text \<open>\<open>datetime(year, month, day)\<close> raises \<open>ValueError\<close> outside the calendar.\<close>

record caldate =
  cal_year :: int
  cal_month :: int
  cal_day :: int

definition is_leap :: "int \<Rightarrow> bool" where
  "is_leap y = (y mod 4 = 0 \<and> (y mod 100 \<noteq> 0 \<or> y mod 400 = 0))"

definition days_in_month :: "int \<Rightarrow> int \<Rightarrow> int" where
  "days_in_month y m =
     (if m = 2 then (if is_leap y then 29 else 28)
      else if m = 4 \<or> m = 6 \<or> m = 9 \<or> m = 11 then 30 else 31)"

definition datetime_ymd :: "int \<Rightarrow> int \<Rightarrow> int \<Rightarrow> caldate option" where
  "datetime_ymd y m d =
     (if 1 \<le> y \<and> y \<le> 9999 \<and> 1 \<le> m \<and> m \<le> 12 \<and> 1 \<le> d \<and> d \<le> days_in_month y m
      then Some \<lparr>cal_year = y, cal_month = m, cal_day = d\<rparr>
      else None)"

text \<open>
  The \<open>datetime\<close> handed to the encoder: its calendar fields and what
  \<open>str(registration_date.timestamp())\<close> evaluates to. \<open>timestamp()\<close> converts through
  the platform's local time and raises where that is out of range (\<open>ValueError\<close> at
  \<open>datetime(1, 1, 1)\<close>; \<open>OverflowError\<close> or \<open>OSError\<close> elsewhere), so the field holds
  the text or the exception raised.
\<close>

datatype timestamp_error = TimestampValueError | TimestampOverflowError | TimestampOSError

fun timestamp_exception :: "timestamp_error \<Rightarrow> py_error" where
  "timestamp_exception TimestampValueError = ValueError"
| "timestamp_exception TimestampOverflowError = OverflowError"
| "timestamp_exception TimestampOSError = OSError"

record datetime =
  year :: nat
  month :: nat
  day :: nat
  timestamp_str :: "timestamp_error + pystr"

section \<open>membership\_key\_system.py\<close>

record tier =
  tier_id :: nat
  tier_name :: pystr
  tier_separator :: pystr
  tier_prefix :: pystr

text \<open>\<open>USER_TIERS\<close>, in the order the dictionary is written (the order \<open>items()\<close>
  iterates in). The last two separators are U+221E and U+27E1.\<close>

definition USER_TIERS :: "(pystr \<times> tier) list" where
  "USER_TIERS =
     [(pstr ''ARCHIVIST'',
        \<lparr>tier_id = 1, tier_name = pstr ''Archivist'', tier_separator = pstr ''-'',
         tier_prefix = pstr ''ARK''\<rparr>),
      (pstr ''ORCHESTRATOR'',
        \<lparr>tier_id = 2, tier_name = pstr ''Orchestrator'', tier_separator = pstr '':'',
         tier_prefix = pstr ''ORC''\<rparr>),
      (pstr ''GODFATHER'',
        \<lparr>tier_id = 3, tier_name = pstr ''Godfather'', tier_separator = [8734],
         tier_prefix = pstr ''GOD''\<rparr>),
      (pstr ''ENTITY'',
        \<lparr>tier_id = 4, tier_name = pstr ''Entity'', tier_separator = [10209],
         tier_prefix = pstr ''NXS''\<rparr>)]"

definition SPECIAL_CHARS :: pystr where
  "SPECIAL_CHARS = pstr ''!@#$%^&*~=-_+[]{}|;:,./<>?''"

definition create_user_hash :: "'s pylib \<Rightarrow> pystr \<Rightarrow> py_error + pystr" where
  "create_user_hash lib user_id =
     (if encodable user_id
      then Inr (py_upper lib (take 6 (sha256_hexdigest lib user_id)))
      else Inl UnicodeEncodeError)"

definition encode_tier :: "nat \<Rightarrow> py_error + nat" where
  "encode_tier tid = py_getitem ascii_uppercase (int tid - 1)"

definition encode_timestamp :: "datetime \<Rightarrow> pystr" where
  "encode_timestamp date =
     (let y = year date mod 100; m = month date; d = day date
      in format_02X y @ format_X m @ format_02X d)"

text \<open>\<open>random.seed(seed)\<close> overwrites the generator's state, whatever it was; the twelve
  draws then walk it on.\<close>

definition pattern_loop :: "'s pylib \<Rightarrow> 's \<Rightarrow> pystr \<times> 's" where
  "pattern_loop lib st0 =
     (let chars = ascii_uppercase @ digits
      in fold (\<lambda>i (pattern, s).
                 let (c, s') = random_choice lib s (if i mod 4 = 3 then SPECIAL_CHARS else chars)
                 in (pattern @ [c], s'))
           [0..<12] ([], st0))"

definition generate_unique_pattern :: "'s pylib \<Rightarrow> pystr \<Rightarrow> 's \<Rightarrow> pystr \<times> 's" where
  "generate_unique_pattern lib seed st = pattern_loop lib (random_seed lib seed)"

text \<open>The attributes are an optional dictionary; \<open>p[0]\<close> raises on an empty word.\<close>

definition initial_upper :: "'s pylib \<Rightarrow> pystr \<Rightarrow> py_error + pystr" where
  "initial_upper lib p =
     (case py_getitem p 0 of Inl e \<Rightarrow> Inl e | Inr c \<Rightarrow> Inr (upper_char lib c))"

fun join_initials :: "'s pylib \<Rightarrow> pystr list \<Rightarrow> py_error + pystr" where
  "join_initials lib [] = Inr []"
| "join_initials lib (p # ps) =
     (case initial_upper lib p of
        Inl e \<Rightarrow> Inl e
      | Inr u \<Rightarrow> (case join_initials lib ps of Inl e \<Rightarrow> Inl e | Inr r \<Rightarrow> Inr (u @ r)))"

definition generate_personal_element ::
  "'s pylib \<Rightarrow> (pystr \<times> pystr) list option \<Rightarrow> pystr \<Rightarrow> py_error + pystr" where
  "generate_personal_element lib user_attributes user_id =
     (case (case user_attributes of None \<Rightarrow> None | Some attrs \<Rightarrow> map_of attrs (pstr ''name'')) of
        Some nm \<Rightarrow> join_initials lib (take 2 (py_split_ws nm))
      | None \<Rightarrow>
          (case create_user_hash lib user_id of Inl e \<Rightarrow> Inl e | Inr h \<Rightarrow> Inr (take 2 h)))"

definition weighted_sum :: "pystr \<Rightarrow> nat" where
  "weighted_sum input_str = sum_list (map (\<lambda>(i, c). c * (i + 1)) (enumerate 0 input_str))"

definition calculate_checksum :: "pystr \<Rightarrow> pystr" where
  "calculate_checksum input_str =
     (let s = weighted_sum input_str
      in format_X (s mod 36) @ format_X ((s * 13) mod 36))"

definition format_key ::
  "pystr \<Rightarrow> pystr \<Rightarrow> pystr \<Rightarrow> pystr \<Rightarrow> pystr \<Rightarrow> pystr \<Rightarrow> tier \<Rightarrow> pystr" where
  "format_key segmentA segmentB segmentC segmentD personalElement checksum tier =
     segmentA @ tier_separator tier @ segmentB @ tier_separator tier @ segmentC
       @ tier_separator tier @ segmentD @ personalElement @ tier_separator tier @ checksum"

text \<open>The encoder returns the key, or the exception it raised, and the generator state it
  leaves. The argument of \<open>generate_unique_pattern\<close> is evaluated before the call, so
  an exception of \<open>timestamp()\<close> comes before \<open>random.seed\<close>; a failure before the
  pattern is drawn leaves the state alone.\<close>

definition generate_membership_key ::
  "'s pylib \<Rightarrow> pystr \<Rightarrow> pystr \<Rightarrow> datetime \<Rightarrow> (pystr \<times> pystr) list option \<Rightarrow> 's
     \<Rightarrow> (py_error + pystr) \<times> 's" where
  "generate_membership_key lib user_id tier_nm registration_date user_attributes st =
     (case map_of USER_TIERS (py_upper lib tier_nm) of
        None \<Rightarrow> (Inl KeyError, st)
      | Some tier \<Rightarrow>
          (case create_user_hash lib user_id of
             Inl e \<Rightarrow> (Inl e, st)
           | Inr user_hash \<Rightarrow>
               (case encode_tier (tier_id tier) of
                  Inl e \<Rightarrow> (Inl e, st)
                | Inr tier_identifier \<Rightarrow>
                    (let time_signature = encode_timestamp registration_date
                     in (case timestamp_str registration_date of
                           Inl e \<Rightarrow> (Inl (timestamp_exception e), st)
                         | Inr timestamp \<Rightarrow>
                             (let (unique_pattern, st') =
                                    generate_unique_pattern lib (user_id @ timestamp) st;
                                  segmentA = tier_prefix tier @ take 3 user_hash;
                                  segmentB = tier_identifier # take 4 unique_pattern;
                                  segmentC = time_signature;
                                  segmentD = drop 4 (take 8 unique_pattern)
                              in (case generate_personal_element lib user_attributes user_id of
                                    Inl e \<Rightarrow> (Inl e, st')
                                  | Inr personal_element \<Rightarrow>
                                      (let base_key =
                                             segmentA @ segmentB @ segmentC @ segmentD
                                               @ personal_element;
                                           checksum = calculate_checksum base_key
                                       in (Inr (format_key segmentA segmentB segmentC segmentD
                                                  personal_element checksum tier), st')))))))))"

text \<open>The decoder's result: the dictionary with \<open>valid\<close> false and an error message, or
  the one with \<open>valid\<close> true and the decoded fields.\<close>

record decoded =
  v_user_id :: pystr
  v_tier_name :: pystr
  v_tier_level :: nat
  v_registration_date :: "caldate option"
  v_personal_element :: pystr

datatype validation = Invalid pystr | Valid decoded

fun valid :: "validation \<Rightarrow> bool" where
  "valid (Invalid e) = False"
| "valid (Valid d) = True"

text \<open>The \<open>for ... else\<close> loop: the first entry whose prefix starts the key and whose
  separator occurs in it.\<close>

definition find_tier :: "pystr \<Rightarrow> (pystr \<times> tier) option" where
  "find_tier membership_key =
     find (\<lambda>(name, tier). startswith membership_key (tier_prefix tier)
                          \<and> py_contains (tier_separator tier) membership_key)
       USER_TIERS"

text \<open>The \<open>try\<close> block: any exception inside it leaves the date \<open>None\<close>.\<close>

definition parse_registration_date :: "'s pylib \<Rightarrow> pystr \<Rightarrow> caldate option" where
  "parse_registration_date lib time_signature =
     (case int_base16 lib (take 2 time_signature) of
        None \<Rightarrow> None
      | Some y \<Rightarrow>
          (case py_getitem time_signature 2 of
             Inl e \<Rightarrow> None
           | Inr c \<Rightarrow>
               (case int_base16 lib [c] of
                  None \<Rightarrow> None
                | Some m \<Rightarrow>
                    (case int_base16 lib (drop 3 time_signature) of
                       None \<Rightarrow> None
                     | Some d \<Rightarrow> datetime_ymd (y + 2000) m d))))"

definition validate_membership_key :: "'s pylib \<Rightarrow> pystr \<Rightarrow> py_error + validation" where
  "validate_membership_key lib membership_key =
     (case find_tier membership_key of
        None \<Rightarrow> Inr (Invalid (pstr ''Unknown key format''))
      | Some (name, tier) \<Rightarrow>
          (case py_split (tier_separator tier) membership_key of
             Inl e \<Rightarrow> Inl e
           | Inr segments \<Rightarrow>
               if length segments \<noteq> 5 then Inr (Invalid (pstr ''Invalid key structure''))
               else
                 (let segmentA = segments ! 0; segmentB = segments ! 1; segmentC = segments ! 2;
                      segmentD_personal = segments ! 3; checksum = segments ! 4;
                      segmentD = slice_to_minus2 segmentD_personal;
                      personal_element = slice_from_minus2 segmentD_personal;
                      reconstructed =
                        segmentA @ segmentB @ segmentC @ segmentD @ personal_element;
                      calculated_checksum = calculate_checksum reconstructed
                  in if checksum \<noteq> calculated_checksum
                     then Inr (Invalid (pstr ''Invalid checksum''))
                     else
                       (case py_getitem segmentB 0 of
                          Inl e \<Rightarrow> Inl e
                        | Inr tier_identifier \<Rightarrow>
                            (case py_find [tier_identifier] ascii_uppercase of
                               None \<Rightarrow> Inl ValueError
                             | Some k \<Rightarrow>
                                 if k + 1 \<noteq> tier_id tier
                                 then Inr (Invalid (pstr ''Tier identifier mismatch''))
                                 else Inr (Valid
                                   \<lparr>v_user_id = pstr ''user_'' @ drop 3 segmentA,
                                    v_tier_name = name,
                                    v_tier_level = tier_id tier,
                                    v_registration_date =
                                      parse_registration_date lib segmentC,
                                    v_personal_element = personal_element\<rparr>))))))"

section \<open>qr\_code\_generator.py\<close>

record qr_data =
  membershipKey :: pystr
  validationURL :: pystr
  qr_tier :: pystr

record visual_style =
  style :: pystr
  mainColor :: pystr
  patternComplexity :: nat
  tierLevel :: nat

datatype qr_result =
    QrFailure pystr "pystr option"
  | QrSuccess qr_data visual_style pystr nat

definition get_tier_color :: "pystr \<Rightarrow> pystr" where
  "get_tier_color tier_nm =
     (case map_of
             [(pstr ''ARCHIVIST'', pstr ''#3A86FF''),
              (pstr ''ORCHESTRATOR'', pstr ''#8338EC''),
              (pstr ''GODFATHER'', pstr ''#FF006E''),
              (pstr ''ENTITY'', pstr ''#FFBE0B'')] tier_nm of
        Some c \<Rightarrow> c
      | None \<Rightarrow> pstr ''#10b981'')"

text \<open>\<open>validation.get("error")\<close> on a failed validation.\<close>

fun get_error :: "validation \<Rightarrow> pystr option" where
  "get_error (Invalid e) = Some e"
| "get_error (Valid d) = None"

definition generate_premium_qr_code :: "'s pylib \<Rightarrow> pystr \<Rightarrow> py_error + qr_result" where
  "generate_premium_qr_code lib membership_key =
     (case validate_membership_key lib membership_key of
        Inl e \<Rightarrow> Inl e
      | Inr validation \<Rightarrow>
          (case validation of
             Invalid err \<Rightarrow>
               Inr (QrFailure (pstr ''Invalid membership key'') (get_error validation))
           | Valid v \<Rightarrow>
               (let tier_nm = v_tier_name v; tier_level = v_tier_level v;
                    qr = \<lparr>membershipKey = membership_key,
                          validationURL = pstr ''https://nexus.io/validate/'' @ membership_key,
                          qr_tier = tier_nm\<rparr>;
                    visual = \<lparr>style = str_lower lib tier_nm,
                              mainColor = get_tier_color tier_nm,
                              patternComplexity = min (tier_level * 2) 10,
                              tierLevel = tier_level\<rparr>
                in Inr (QrSuccess qr visual tier_nm tier_level))))"

section \<open>Properties the theorems speak of\<close>

text \<open>An uppercase hexadecimal digit: 0-9 or A-F.\<close>

definition is_hex_upper :: "nat \<Rightarrow> bool" where
  "is_hex_upper c = ((48 \<le> c \<and> c \<le> 57) \<or> (65 \<le> c \<and> c \<le> 70))"

text \<open>A number below 256 in uppercase hexadecimal, without padding: one digit below 16, two
  from 16 on.\<close>

definition hex_of_residue :: "nat \<Rightarrow> pystr" where
  "hex_of_residue r =
     (if r < 16 then [hex_digit r] else [hex_digit (r div 16), hex_digit (r mod 16)])"

text \<open>The calendar fields a \<open>datetime\<close> can hold.\<close>

definition datetime_fields_ok :: "datetime \<Rightarrow> bool" where
  "datetime_fields_ok date =
     (1 \<le> year date \<and> year date \<le> 9999 \<and> 1 \<le> month date \<and> month date \<le> 12
      \<and> 1 \<le> day date \<and> day date \<le> 31)"

section \<open>A library instance for running the model\<close>

text \<open>
  To evaluate the model on examples the library parameters need values. This instance
  tabulates what CPython returns on the inputs the examples use: the SHA-256 digests of the
  user ids \<open>alice123\<close> and \<open>user7\<close>, and the indices \<open>random.choice\<close> picks after
  \<open>random.seed\<close> on those ids followed by \<open>1710460800.0\<close>, the timestamp of
  2024-03-15 00:00 UTC. A generator state is written as the seed and the number of draws made
  since; an index is taken modulo the length of the sequence, so that every non-empty sequence
  yields one of its elements. Hexadecimal strings are read digit by digit; the instance
  leaves characters outside ASCII alone.
\<close>

definition sample_sha256 :: "pystr \<Rightarrow> pystr" where
  "sample_sha256 s =
     (if s = pstr ''alice123''
      then pstr ''4e40e8ffe0ee32fa53e139147ed559229a5930f89c2204706fc174beb36210b3''
      else if s = pstr ''user7''
      then pstr ''3268151e52d97b4cacf97f5b46a5c76c8416e928e137e3b3dc447696a29afbaa''
      else replicate 64 48)"

definition sample_draws :: "pystr \<Rightarrow> nat list" where
  "sample_draws seed =
     (if seed = pstr ''alice1231710460800.0'' then [31, 4, 3, 22, 18, 10, 22, 1, 35, 8, 14, 19]
      else if seed = pstr ''user71710460800.0'' then [32, 4, 25, 10, 12, 16, 6, 1, 18, 31, 9, 12]
      else [])"

definition nth_or_zero :: "nat list \<Rightarrow> nat \<Rightarrow> nat" where
  "nth_or_zero xs k = (if k < length xs then xs ! k else 0)"

definition sample_choice :: "pystr \<times> nat \<Rightarrow> pystr \<Rightarrow> nat \<times> (pystr \<times> nat)" where
  "sample_choice st seq =
     (if seq = [] then 0 else seq ! (nth_or_zero (sample_draws (fst st)) (snd st) mod length seq),
      (fst st, Suc (snd st)))"

definition hex_value :: "nat \<Rightarrow> int option" where
  "hex_value c =
     (if 48 \<le> c \<and> c \<le> 57 then Some (int c - 48)
      else if 65 \<le> c \<and> c \<le> 70 then Some (int c - 55)
      else if 97 \<le> c \<and> c \<le> 102 then Some (int c - 87)
      else None)"

fun hex_digits_value :: "int \<Rightarrow> pystr \<Rightarrow> int option" where
  "hex_digits_value acc [] = Some acc"
| "hex_digits_value acc (c # cs) =
     (case hex_value c of None \<Rightarrow> None | Some v \<Rightarrow> hex_digits_value (16 * acc + v) cs)"

definition sample_int16 :: "pystr \<Rightarrow> int option" where
  "sample_int16 s = (if s = [] then None else hex_digits_value 0 s)"

definition sample_lower :: "pystr \<Rightarrow> pystr" where
  "sample_lower s = map (\<lambda>c. if 65 \<le> c \<and> c \<le> 90 then c + 32 else c) s"

definition sample_lib :: "(pystr \<times> nat) pylib" where
  "sample_lib =
     \<lparr>sha256_hexdigest = sample_sha256,
      random_seed = (\<lambda>seed. (seed, 0)),
      random_choice = sample_choice,
      upper_nonascii = (\<lambda>c. [c]),
      str_lower = sample_lower,
      int_base16 = sample_int16\<rparr>"

text \<open>The encoder's inputs in the examples: 15 March 2024, midnight UTC.\<close>

definition march15 :: datetime where
  "march15 =
     \<lparr>year = 2024, month = 3, day = 15, timestamp_str = Inr (pstr ''1710460800.0'')\<rparr>"

text \<open>A date whose \<open>timestamp()\<close> raises: 1 January of the year 1.\<close>

definition year_one :: datetime where
  "year_one = \<lparr>year = 1, month = 1, day = 1, timestamp_str = Inl TimestampValueError\<rparr>"

text \<open>A Godfather key: what the encoder returns for \<open>alice123\<close>, tier \<open>godfather\<close>,
  15 March 2024 and no attributes, under the instance above.\<close>

definition godfather_key :: pystr where
  "godfather_key =
     pstr ''GOD4E4'' @ [8734] @ pstr ''C5ED/'' @ [8734] @ pstr ''1830F'' @ [8734]
       @ pstr ''SKW@4E'' @ [8734] @ pstr ''131F''"

text \<open>
  A call into the two modules from a generator state, with its result and the state it leaves.
  Of the three entry points only the encoder reaches \<open>random\<close>; the decoder and the
  adapter (and what they call) contain no statement that reads or writes the generator.
\<close>

datatype call =
    Encode pystr pystr datetime "(pystr \<times> pystr) list option"
  | Decode pystr
  | Describe pystr

datatype outcome =
    Encoded "py_error + pystr"
  | Decoded "py_error + validation"
  | Described "py_error + qr_result"

fun perform :: "'s pylib \<Rightarrow> call \<Rightarrow> 's \<Rightarrow> outcome \<times> 's" where
  "perform lib (Encode user_id tier_nm registration_date user_attributes) st =
     (let (r, st') =
            generate_membership_key lib user_id tier_nm registration_date user_attributes st
      in (Encoded r, st'))"
| "perform lib (Decode membership_key) st =
     (Decoded (validate_membership_key lib membership_key), st)"
| "perform lib (Describe membership_key) st =
     (Described (generate_premium_qr_code lib membership_key), st)"

text \<open>Two ASCII strings that differ in the case of their letters only.\<close>

definition ascii_fold :: "nat \<Rightarrow> nat" where
  "ascii_fold c = (if 97 \<le> c \<and> c \<le> 122 then c - 32 else c)"

definition casing_of :: "pystr \<Rightarrow> pystr \<Rightarrow> bool" where
  "casing_of s t = (map ascii_fold s = map ascii_fold t)"

text \<open>What the library promises of its functions, where a theorem needs it:
  \<open>random.choice\<close> returns an element of a non-empty sequence, and a SHA-256 hex digest is
  64 characters out of 0-9 and a-f.\<close>

definition is_hex_lower :: "nat \<Rightarrow> bool" where
  "is_hex_lower c = ((48 \<le> c \<and> c \<le> 57) \<or> (97 \<le> c \<and> c \<le> 102))"

definition choice_in_seq :: "'s pylib \<Rightarrow> bool" where
  "choice_in_seq lib = (\<forall>st seq. seq \<noteq> [] \<longrightarrow> fst (random_choice lib st seq) \<in> set seq)"

definition hexdigest_ok :: "'s pylib \<Rightarrow> bool" where
  "hexdigest_ok lib =
     (\<forall>s. length (sha256_hexdigest lib s) = 64 \<and> list_all is_hex_lower (sha256_hexdigest lib s))"

section \<open>The checksum\<close>

lemma weighted_sum_from:
  "sum_list (map (\<lambda>(i, c). c * (i + 1)) (enumerate n s)) = (\<Sum>i<length s. s ! i * (n + i + 1))"
proof (induction s arbitrary: n)
  case Nil
  then show ?case by simp
next
  case (Cons c cs)
  have "(\<Sum>i<length (c # cs). (c # cs) ! i * (n + i + 1))
          = c * (n + 1) + (\<Sum>i<length cs. cs ! i * (Suc n + i + 1))"
    unfolding length_Cons sum.lessThan_Suc_shift by simp
  with Cons.IH [of "Suc n"] show ?case by simp
qed

lemma weighted_sum_positions:
  "weighted_sum s = (\<Sum>i<length s. s ! i * (i + 1))"
  using weighted_sum_from [of 0 s] by (simp add: weighted_sum_def)

lemma format_X_below_256: "r < 256 \<Longrightarrow> format_X r = hex_of_residue r"
proof (cases "r < 16")
  case True
  then show ?thesis by (simp add: format_X.simps [of r] hex_of_residue_def)
next
  case False
  assume "r < 256"
  then have "r div 16 < 16" by simp
  then have "format_X (r div 16) = [hex_digit (r div 16)]"
    by (simp add: format_X.simps [of "r div 16"])
  with False show ?thesis by (simp add: format_X.simps [of r] hex_of_residue_def)
qed

lemma hex_digit_is_hex: "d < 16 \<Longrightarrow> is_hex_upper (hex_digit d)"
  by (auto simp: is_hex_upper_def hex_digit_def)

lemma hex_of_residue_hex: "r < 256 \<Longrightarrow> list_all is_hex_upper (hex_of_residue r)"
  by (simp add: hex_of_residue_def hex_digit_is_hex less_mult_imp_div_less)

lemma hex_of_residue_length: "length (hex_of_residue r) = (if r < 16 then 1 else 2)"
  by (simp add: hex_of_residue_def)

text \<open>
  Claim C2, as the code has it. \<open>calculate_checksum\<close> formats the two residues with
  \<open>:X\<close>, which is hexadecimal: a residue from 16 to 35 takes two digits. For every string
  the checksum is the weighted sum of the code points (each times its 1-based position)
  modulo 36 in uppercase hexadecimal, followed by thirteen times the sum modulo 36 in
  uppercase hexadecimal; it has between two and four characters, all of them hexadecimal
  digits.
\<close>

theorem calculate_checksum_is_hex_pair:
  "calculate_checksum s =
     hex_of_residue ((\<Sum>i<length s. s ! i * (i + 1)) mod 36)
       @ hex_of_residue (((\<Sum>i<length s. s ! i * (i + 1)) * 13) mod 36)
   \<and> 2 \<le> length (calculate_checksum s) \<and> length (calculate_checksum s) \<le> 4
   \<and> list_all is_hex_upper (calculate_checksum s)"
proof -
  let ?w = "\<Sum>i<length s. s ! i * (i + 1)"
  have a: "?w mod 36 < 256" and b: "(?w * 13) mod 36 < 256"
    by (rule less_trans [OF mod_less_divisor]; simp)+
  have eq: "calculate_checksum s = hex_of_residue (?w mod 36) @ hex_of_residue ((?w * 13) mod 36)"
    unfolding calculate_checksum_def Let_def weighted_sum_positions
    using a b by (simp only: format_X_below_256)
  show ?thesis
    unfolding eq using a b
    by (simp add: hex_of_residue_hex hex_of_residue_length del: mod_less_divisor)
qed

text \<open>The theorem at the string \<open>ARK\<close>: the sum is 454, the residues are 22 and 34.\<close>

theorem calculate_checksum_is_hex_pair_witness:
  "calculate_checksum (pstr ''ARK'') = pstr ''1622''"
  using calculate_checksum_is_hex_pair [of "pstr ''ARK''"]
  by (simp add: pstr_def hex_of_residue_def hex_digit_def lessThan_nat_numeral lessThan_Suc)

text \<open>Claim C2 as stated fails: the checksum of the one-letter string \<open>A\<close> has four
  characters (the sum is 65, the residues are 29 and 17).\<close>

theorem calculate_checksum_four_chars:
  "calculate_checksum (pstr ''A'') = pstr ''1D11''
   \<and> length (calculate_checksum (pstr ''A'')) \<noteq> 2"
  by (simp add: calculate_checksum_def weighted_sum_def pstr_def format_X.simps hex_digit_def)

section \<open>The time signature\<close>

lemma format_02X_below_256:
  "n < 256 \<Longrightarrow> format_02X n = [hex_digit (n div 16), hex_digit (n mod 16)]"
  by (simp add: format_02X_def format_X_below_256 hex_of_residue_def hex_digit_def)

lemma format_X_below_16: "n < 16 \<Longrightarrow> format_X n = [hex_digit n]"
  by (simp add: format_X.simps [of n])

lemma encode_timestamp_digits:
  assumes "datetime_fields_ok date"
  shows "encode_timestamp date =
           [hex_digit (year date mod 100 div 16), hex_digit (year date mod 100 mod 16),
            hex_digit (month date),
            hex_digit (day date div 16), hex_digit (day date mod 16)]"
proof -
  have y: "year date mod 100 < 256"
    by (rule less_trans [OF mod_less_divisor]) simp_all
  have m: "month date < 16" and d: "day date < 256"
    using assms by (simp_all add: datetime_fields_ok_def)
  show ?thesis
    using y m d by (simp add: encode_timestamp_def Let_def format_02X_below_256 format_X_below_16
        del: mod_less_divisor)
qed

lemma encode_timestamp_is_hex:
  assumes "datetime_fields_ok date"
  shows "list_all is_hex_upper (encode_timestamp date)"
proof -
  have y: "year date mod 100 < 256"
    by (rule less_trans [OF mod_less_divisor]) simp_all
  then have y': "year date mod 100 div 16 < 16" by simp
  have m: "month date < 16" and d: "day date < 256"
    using assms by (simp_all add: datetime_fields_ok_def)
  have d': "day date div 16 < 16" using d by simp
  show ?thesis
    unfolding encode_timestamp_digits [OF assms] using m d' y' by (simp add: hex_digit_is_hex)
qed

text \<open>
  Claim C3, as the code has it. Two digits for the year, one for the month and two for the
  day make five characters, not four: for every date, \<open>encode_timestamp\<close> is the year
  modulo 100 as two uppercase hexadecimal digits, the month as one and the day as two.
\<close>

theorem encode_timestamp_five_hex:
  assumes "datetime_fields_ok date"
  shows "encode_timestamp date =
           [hex_digit (year date mod 100 div 16), hex_digit (year date mod 100 mod 16),
            hex_digit (month date),
            hex_digit (day date div 16), hex_digit (day date mod 16)]
         \<and> length (encode_timestamp date) = 5
         \<and> list_all is_hex_upper (encode_timestamp date)"
proof -
  have "length (encode_timestamp date) = 5"
    by (simp add: encode_timestamp_digits [OF assms])
  with encode_timestamp_digits [OF assms] encode_timestamp_is_hex [OF assms]
  show ?thesis by blast
qed

text \<open>The theorem at 15 March 2024: 24 is 18, 3 is 3, 15 is 0F.\<close>

theorem encode_timestamp_five_hex_witness:
  "datetime_fields_ok march15 \<and> encode_timestamp march15 = pstr ''1830F''"
proof -
  have ok: "datetime_fields_ok march15"
    by (simp add: datetime_fields_ok_def march15_def)
  from encode_timestamp_five_hex [OF ok] show ?thesis
    using ok by (simp add: march15_def pstr_def hex_digit_def)
qed

text \<open>Claim C3 as stated fails: the time signature of 15 March 2024 does not have four
  characters.\<close>

theorem encode_timestamp_march15_length:
  "encode_timestamp march15 = pstr ''1830F'' \<and> length (encode_timestamp march15) \<noteq> 4"
  by (simp add: encode_timestamp_def march15_def pstr_def format_02X_def format_X.simps
      hex_digit_def)

section \<open>The decoder\<close>

lemmas run_defs =
  validate_membership_key_def find_tier_def USER_TIERS_def startswith_def py_contains_def
  py_split_def split_nonempty.simps pstr_def calculate_checksum_def weighted_sum_def
  format_X.simps hex_digit_def slice_to_minus2_def slice_from_minus2_def py_getitem_def
  ascii_uppercase_def

text \<open>
  Claim C4 does not hold of the code. After the checksum gate the decoder reads
  \<open>segmentB[0]\<close> and looks it up in \<open>string.ascii_uppercase\<close> outside any \<open>try\<close>:
  the key \<open>ARK----1622\<close> has five segments, an empty segment B and the checksum of
  \<open>ARK\<close>, and the decoder raises \<open>IndexError\<close> on it; the key \<open>ARK-1---21A\<close> has
  segment B \<open>1\<close> and the checksum of \<open>ARK1\<close>, and the decoder raises \<open>ValueError\<close>.
\<close>

theorem validate_membership_key_raises:
  "validate_membership_key lib (pstr ''ARK----1622'') = Inl IndexError
   \<and> validate_membership_key lib (pstr ''ARK-1---21A'') = Inl ValueError"
  by (simp add: run_defs)

lemma slices_rejoin: "slice_to_minus2 s @ slice_from_minus2 s = s"
  by (simp add: slice_to_minus2_def slice_from_minus2_def)

lemma slices_of_short:
  "length s < 2 \<Longrightarrow> slice_to_minus2 s = [] \<and> slice_from_minus2 s = s"
  by (simp add: slice_to_minus2_def slice_from_minus2_def)

lemma find_tier_in_table:
  "find_tier key = Some (name, tier) \<Longrightarrow> (name, tier) \<in> set USER_TIERS"
  unfolding find_tier_def by (auto simp: find_Some_iff in_set_conv_nth)

lemma table_entries:
  "(name, tier) \<in> set USER_TIERS \<Longrightarrow>
     (name = pstr ''ARCHIVIST'' \<and> tier_id tier = 1) \<or> (name = pstr ''ORCHESTRATOR'' \<and> tier_id tier = 2)
     \<or> (name = pstr ''GODFATHER'' \<and> tier_id tier = 3) \<or> (name = pstr ''ENTITY'' \<and> tier_id tier = 4)"
  by (auto simp: USER_TIERS_def)

lemma rank_letter_index:
  "1 \<le> k \<Longrightarrow> k \<le> 4 \<Longrightarrow> py_find [64 + k] ascii_uppercase = Some (k - 1)"
proof -
  assume "1 \<le> k" "k \<le> 4"
  then consider "k = 1" | "k = 2" | "k = 3" | "k = 4" by linarith
  then show ?thesis
    by cases (simp_all add: ascii_uppercase_def pstr_def startswith_def)
qed

lemma validate_on_five_segments:
  assumes "find_tier key = Some (name, tier)"
    and "py_split (tier_separator tier) key = Inr [A, B, C, DP, CS]"
  shows "validate_membership_key lib key =
     (if CS \<noteq> calculate_checksum (A @ B @ C @ DP) then Inr (Invalid (pstr ''Invalid checksum''))
      else (case py_getitem B 0 of
              Inl e \<Rightarrow> Inl e
            | Inr c \<Rightarrow>
                (case py_find [c] ascii_uppercase of
                   None \<Rightarrow> Inl ValueError
                 | Some k \<Rightarrow>
                     if k + 1 \<noteq> tier_id tier
                     then Inr (Invalid (pstr ''Tier identifier mismatch''))
                     else Inr (Valid
                       \<lparr>v_user_id = pstr ''user_'' @ drop 3 A, v_tier_name = name,
                        v_tier_level = tier_id tier,
                        v_registration_date = parse_registration_date lib C,
                        v_personal_element = slice_from_minus2 DP\<rparr>))))"
  using assms by (simp add: validate_membership_key_def Let_def slices_rejoin)

lemma valid_result_in_table:
  assumes "validate_membership_key lib key = Inr (Valid v)"
  shows "\<exists>tier. (v_tier_name v, tier) \<in> set USER_TIERS \<and> v_tier_level v = tier_id tier"
proof -
  from assms obtain name tier where f: "find_tier key = Some (name, tier)"
    by (cases "find_tier key") (auto simp: validate_membership_key_def)
  from assms f have "v_tier_name v = name \<and> v_tier_level v = tier_id tier"
    by (auto simp: validate_membership_key_def Let_def
        split: sum.splits if_splits option.splits)
  with find_tier_in_table [OF f] show ?thesis by blast
qed

lemma godfather_level:
  assumes "validate_membership_key lib key = Inr (Valid v)" and "v_tier_name v = pstr ''GODFATHER''"
  shows "v_tier_level v = 3"
proof -
  from valid_result_in_table [OF assms(1)] obtain tier where
    t: "(v_tier_name v, tier) \<in> set USER_TIERS" and l: "v_tier_level v = tier_id tier" by blast
  from table_entries [OF t] assms(2) l show ?thesis
    by (auto simp: pstr_def)
qed


text \<open>
  Claim C9. For a key that splits into exactly five segments the decoder recomputes the
  checksum over the first four segments joined: cutting the fourth into all but its last two
  characters and its last two characters and joining the pieces again gives the fourth
  segment back, so the decoder reports \<open>Invalid checksum\<close> exactly when the fifth segment
  differs from the checksum of the four. The slices are total: of a fourth segment shorter
  than two characters the front is empty and the tail is the whole segment, and such a key
  that passes the checksum and tier-letter gates is decoded with that personal element.
\<close>

theorem checksum_over_first_four_segments:
  assumes "find_tier key = Some (name, tier)"
    and "py_split (tier_separator tier) key = Inr [A, B, C, DP, CS]"
  shows "slice_to_minus2 DP @ slice_from_minus2 DP = DP
     \<and> (validate_membership_key lib key = Inr (Invalid (pstr ''Invalid checksum''))
          \<longleftrightarrow> CS \<noteq> calculate_checksum (A @ B @ C @ DP))
     \<and> (length DP < 2 \<longrightarrow> slice_to_minus2 DP = [] \<and> slice_from_minus2 DP = DP)
     \<and> (length DP < 2 \<and> CS = calculate_checksum (A @ B @ C @ DP)
          \<and> py_getitem B 0 = Inr (64 + tier_id tier) \<longrightarrow>
          (\<exists>v. validate_membership_key lib key = Inr (Valid v) \<and> v_personal_element v = DP))"
proof -
  note v = validate_on_five_segments [OF assms, of lib]
  from find_tier_in_table [OF assms(1)] have "1 \<le> tier_id tier \<and> tier_id tier \<le> 4"
    by (auto dest: table_entries)
  then have idx: "py_find [64 + tier_id tier] ascii_uppercase = Some (tier_id tier - 1)"
    and pos: "tier_id tier - 1 + 1 = tier_id tier"
    by (simp_all add: rank_letter_index)
  have "validate_membership_key lib key = Inr (Invalid (pstr ''Invalid checksum''))
          \<longleftrightarrow> CS \<noteq> calculate_checksum (A @ B @ C @ DP)"
    unfolding v by (simp add: pstr_def split: sum.splits option.splits)
  moreover have "length DP < 2 \<and> CS = calculate_checksum (A @ B @ C @ DP)
          \<and> py_getitem B 0 = Inr (64 + tier_id tier) \<longrightarrow>
          (\<exists>v. validate_membership_key lib key = Inr (Valid v) \<and> v_personal_element v = DP)"
    unfolding v using idx pos by (simp add: slices_of_short)
  ultimately show ?thesis
    using slices_rejoin slices_of_short by blast
qed


text \<open>The theorem at the key \<open>ARK-A---1E1E\<close>, whose third and fourth segments are
  empty.\<close>

theorem checksum_over_first_four_segments_witness:
  "find_tier (pstr ''ARK-A---1E1E'')
     = Some (pstr ''ARCHIVIST'',
         \<lparr>tier_id = 1, tier_name = pstr ''Archivist'', tier_separator = pstr ''-'',
          tier_prefix = pstr ''ARK''\<rparr>)
   \<and> py_split (pstr ''-'') (pstr ''ARK-A---1E1E'') = Inr [pstr ''ARK'', pstr ''A'', [], [], pstr ''1E1E'']
   \<and> (\<exists>v. validate_membership_key sample_lib (pstr ''ARK-A---1E1E'') = Inr (Valid v)
          \<and> v_personal_element v = [])"
proof -
  let ?t = "\<lparr>tier_id = 1, tier_name = pstr ''Archivist'', tier_separator = pstr ''-'',
             tier_prefix = pstr ''ARK''\<rparr>"
  have f: "find_tier (pstr ''ARK-A---1E1E'') = Some (pstr ''ARCHIVIST'', ?t)"
    by (simp add: run_defs)
  have sep: "tier_separator ?t = pstr ''-''" and tid: "tier_id ?t = 1"
    by simp_all
  have s: "py_split (tier_separator ?t) (pstr ''ARK-A---1E1E'')
             = Inr [pstr ''ARK'', pstr ''A'', [], [], pstr ''1E1E'']"
    unfolding sep by (simp add: run_defs)
  have c: "pstr ''1E1E'' = calculate_checksum (pstr ''ARK'' @ pstr ''A'' @ [] @ [])"
    by (simp add: run_defs)
  have b: "py_getitem (pstr ''A'') 0 = Inr (64 + tier_id ?t)"
    unfolding tid by (simp add: py_getitem_def pstr_def)
  from checksum_over_first_four_segments [OF f s, of sample_lib] c b
  have "\<exists>v. validate_membership_key sample_lib (pstr ''ARK-A---1E1E'') = Inr (Valid v)
          \<and> v_personal_element v = []"
    by simp
  with f s sep show ?thesis by simp
qed





section \<open>The presentation adapter\<close>

text \<open>
  What the adapter does with a result of the decoder. When the decoder reports the key
  invalid, the adapter returns the failure \<open>Invalid membership key\<close> with the decoder's
  error message as its details. When the decoder reports a valid key of tier \<open>GODFATHER\<close>,
  the adapter succeeds with tier level 3, main colour \<open>#FF006E\<close> and pattern complexity
  \<open>min (level * 2) 10\<close>, which is 6.
\<close>

lemma generate_premium_qr_code_passthrough:
  "(validate_membership_key lib key = Inr (Invalid err) \<longrightarrow>
      generate_premium_qr_code lib key
        = Inr (QrFailure (pstr ''Invalid membership key'') (Some err)))
   \<and> (validate_membership_key lib key = Inr (Valid v) \<and> v_tier_name v = pstr ''GODFATHER'' \<longrightarrow>
        (\<exists>qr visual.
           generate_premium_qr_code lib key = Inr (QrSuccess qr visual (pstr ''GODFATHER'') 3)
           \<and> mainColor visual = pstr ''#FF006E''
           \<and> patternComplexity visual = min (v_tier_level v * 2) 10
           \<and> patternComplexity visual = 6))"
proof (intro conjI impI)
  assume "validate_membership_key lib key = Inr (Invalid err)"
  then show "generate_premium_qr_code lib key
        = Inr (QrFailure (pstr ''Invalid membership key'') (Some err))"
    by (simp add: generate_premium_qr_code_def)
next
  assume a: "validate_membership_key lib key = Inr (Valid v) \<and> v_tier_name v = pstr ''GODFATHER''"
  then have l: "v_tier_level v = 3" using godfather_level by blast
  have c: "get_tier_color (pstr ''GODFATHER'') = pstr ''#FF006E''"
    by (simp add: get_tier_color_def pstr_def)
  show "\<exists>qr visual.
           generate_premium_qr_code lib key = Inr (QrSuccess qr visual (pstr ''GODFATHER'') 3)
           \<and> mainColor visual = pstr ''#FF006E''
           \<and> patternComplexity visual = min (v_tier_level v * 2) 10
           \<and> patternComplexity visual = 6"
    using a l c by (simp add: generate_premium_qr_code_def Let_def)
qed



text \<open>So it is at a string that is no key and at a Godfather key.\<close>

lemma generate_premium_qr_code_passthrough_example:
  "generate_premium_qr_code sample_lib (pstr ''garbage-not-a-key'')
     = Inr (QrFailure (pstr ''Invalid membership key'') (Some (pstr ''Unknown key format'')))
   \<and> (\<exists>qr visual.
         generate_premium_qr_code sample_lib godfather_key
           = Inr (QrSuccess qr visual (pstr ''GODFATHER'') 3)
         \<and> mainColor visual = pstr ''#FF006E'' \<and> patternComplexity visual = 6)"
proof -
  have bad: "validate_membership_key sample_lib (pstr ''garbage-not-a-key'')
               = Inr (Invalid (pstr ''Unknown key format''))"
    by (simp add: run_defs)
  obtain v where good: "validate_membership_key sample_lib godfather_key = Inr (Valid v)"
    and name: "v_tier_name v = pstr ''GODFATHER''"
    by (simp add: run_defs godfather_key_def)
  from generate_premium_qr_code_passthrough
         [of sample_lib "pstr ''garbage-not-a-key''" "pstr ''Unknown key format''"] bad
  have one: "generate_premium_qr_code sample_lib (pstr ''garbage-not-a-key'')
     = Inr (QrFailure (pstr ''Invalid membership key'') (Some (pstr ''Unknown key format'')))"
    by blast
  from generate_premium_qr_code_passthrough [of sample_lib godfather_key _ v] good name
  have two: "\<exists>qr visual.
         generate_premium_qr_code sample_lib godfather_key
           = Inr (QrSuccess qr visual (pstr ''GODFATHER'') 3)
         \<and> mainColor visual = pstr ''#FF006E'' \<and> patternComplexity visual = 6"
    by blast
  from one two show ?thesis by blast
qed

text \<open>
  Claim C5 does not hold of the code. The adapter calls the decoder first and has no
  \<open>try\<close> of its own, so where the decoder raises the adapter raises too and returns no
  failure result: on the key \<open>ARK----1622\<close> (five segments, segment B empty, checksum of
  \<open>ARK\<close>) it raises \<open>IndexError\<close>, on \<open>ARK-1---21A\<close> (segment B \<open>1\<close>, checksum of
  \<open>ARK1\<close>) it raises \<open>ValueError\<close>. Neither key is valid.
\<close>

theorem generate_premium_qr_code_raises:
  "generate_premium_qr_code lib (pstr ''ARK----1622'') = Inl IndexError
   \<and> generate_premium_qr_code lib (pstr ''ARK-1---21A'') = Inl ValueError"
  by (simp add: generate_premium_qr_code_def run_defs)

section \<open>The encoder\<close>

lemma split_ws_from_nonempty: "[] \<notin> set (split_ws_from cur s)"
  by (induction s arbitrary: cur) auto

lemma join_initials_total: "[] \<notin> set ps \<Longrightarrow> \<exists>r. join_initials lib ps = Inr r"
proof (induction ps)
  case Nil
  then show ?case by simp
next
  case (Cons p ps)
  then have "p \<noteq> []" and "[] \<notin> set ps" by auto
  then obtain r where "join_initials lib ps = Inr r" and "py_getitem p 0 = Inr (hd p)"
    using Cons.IH by (cases p) (auto simp: py_getitem_def)
  then show ?case by (simp add: initial_upper_def)
qed

lemma generate_personal_element_total:
  assumes "encodable user_id"
  shows "\<exists>p. generate_personal_element lib user_attributes user_id = Inr p"
proof (cases "case user_attributes of None \<Rightarrow> None | Some attrs \<Rightarrow> map_of attrs (pstr ''name'')")
  case None
  with assms show ?thesis
    by (simp add: generate_personal_element_def create_user_hash_def)
next
  case (Some nm)
  have "[] \<notin> set (take 2 (py_split_ws nm))"
    using split_ws_from_nonempty [of "[]" nm] by (auto simp: py_split_ws_def dest: in_set_takeD)
  from join_initials_total [OF this, of lib] Some show ?thesis
    by (simp add: generate_personal_element_def)
qed

lemma encode_tier_in_table:
  assumes "map_of USER_TIERS k = Some tier"
  shows "encode_tier (tier_id tier) = Inr (64 + tier_id tier)"
proof -
  from assms have "(k, tier) \<in> set USER_TIERS" by (rule map_of_SomeD)
  then have "tier_id tier = 1 \<or> tier_id tier = 2 \<or> tier_id tier = 3 \<or> tier_id tier = 4"
    by (auto dest: table_entries)
  then show ?thesis
    by (auto simp: encode_tier_def py_getitem_def ascii_uppercase_def pstr_def)
qed

lemma generate_membership_key_found:
  assumes "map_of USER_TIERS (py_upper lib tier_nm) = Some tier" and "encodable user_id"
    and "timestamp_str registration_date = Inr ts"
  shows "\<exists>p. generate_personal_element lib user_attributes user_id = Inr p
     \<and> generate_membership_key lib user_id tier_nm registration_date user_attributes st =
        (let user_hash = py_upper lib (take 6 (sha256_hexdigest lib user_id));
             loop = pattern_loop lib (random_seed lib (user_id @ ts));
             segmentA = tier_prefix tier @ take 3 user_hash;
             segmentB = (64 + tier_id tier) # take 4 (fst loop);
             segmentC = encode_timestamp registration_date;
             segmentD = drop 4 (take 8 (fst loop))
         in (Inr (format_key segmentA segmentB segmentC segmentD p
                   (calculate_checksum (segmentA @ segmentB @ segmentC @ segmentD @ p)) tier),
             snd loop))"
proof -
  from generate_personal_element_total [OF assms(2), of lib user_attributes]
  obtain p where p: "generate_personal_element lib user_attributes user_id = Inr p" ..
  show ?thesis
    using assms p encode_tier_in_table [OF assms(1)]
    by (simp add: generate_membership_key_def create_user_hash_def generate_unique_pattern_def
        Let_def split_beta)
qed

lemma create_user_hash_error: "create_user_hash lib user_id = Inl e \<Longrightarrow> e = UnicodeEncodeError"
  by (simp add: create_user_hash_def split: if_splits)

lemma encode_tier_error: "encode_tier tid = Inl e \<Longrightarrow> e = IndexError"
  by (simp add: encode_tier_def py_getitem_def split: if_splits)

lemma timestamp_exception_not_key: "timestamp_exception e \<noteq> KeyError"
  by (cases e) simp_all

lemma generate_membership_key_no_timestamp:
  assumes "timestamp_str registration_date = Inl e"
  shows "\<exists>x. generate_membership_key lib user_id tier_nm registration_date user_attributes st
               = (Inl x, st)
             \<and> (map_of USER_TIERS (py_upper lib tier_nm) \<noteq> None \<longrightarrow> x \<noteq> KeyError)"
  using assms timestamp_exception_not_key [of e]
  by (auto simp: generate_membership_key_def Let_def split: option.splits sum.splits
      dest: create_user_hash_error encode_tier_error)

lemma generate_membership_key_state:
  "snd (generate_membership_key lib user_id tier_nm registration_date user_attributes st) =
     (case timestamp_str registration_date of
        Inl e \<Rightarrow> st
      | Inr ts \<Rightarrow>
          if map_of USER_TIERS (py_upper lib tier_nm) = None \<or> \<not> encodable user_id then st
          else snd (pattern_loop lib (random_seed lib (user_id @ ts))))"
proof (cases "timestamp_str registration_date")
  case (Inl e)
  from generate_membership_key_no_timestamp
         [OF this, of lib user_id tier_nm user_attributes st] Inl
  show ?thesis by auto
next
  case (Inr ts)
  show ?thesis
  proof (cases "map_of USER_TIERS (py_upper lib tier_nm)")
    case None
    with Inr show ?thesis by (simp add: generate_membership_key_def)
  next
    case (Some tier)
    show ?thesis
    proof (cases "encodable user_id")
      case True
      from generate_membership_key_found [OF Some True Inr, of user_attributes st]
      show ?thesis using Some True Inr by (auto simp: Let_def)
    next
      case False
      with Some Inr show ?thesis
        by (simp add: generate_membership_key_def create_user_hash_def)
    qed
  qed
qed

lemma generate_membership_key_any_state:
  "fst (generate_membership_key lib user_id tier_nm registration_date user_attributes st1)
     = fst (generate_membership_key lib user_id tier_nm registration_date user_attributes st2)"
proof -
  have "generate_unique_pattern lib seed st1 = generate_unique_pattern lib seed st2" for seed
    by (simp add: generate_unique_pattern_def)
  then show ?thesis
    by (simp add: generate_membership_key_def Let_def split_beta
        split: option.splits sum.splits)
qed

lemma upper_char_ascii: "ascii_fold c < 128 \<Longrightarrow> upper_char lib c = [ascii_fold c]"
  by (auto simp: upper_char_def ascii_fold_def)

lemma py_upper_ascii:
  "list_all (\<lambda>c. c < 128) (map ascii_fold s) \<Longrightarrow> py_upper lib s = map ascii_fold s"
  by (induction s) (simp_all add: py_upper_def upper_char_ascii)

lemma tier_names_upper:
  assumes "casing_of tier_nm nm" and "nm \<in> set (map (tier_name \<circ> snd) USER_TIERS)"
  shows "py_upper lib tier_nm \<in> set (map fst USER_TIERS)"
proof -
  from assms(2) have "map ascii_fold nm \<in> set (map fst USER_TIERS)"
    by (auto simp: USER_TIERS_def pstr_def ascii_fold_def)
  moreover from this have "list_all (\<lambda>c. c < 128) (map ascii_fold nm)"
    by (auto simp: USER_TIERS_def pstr_def)
  ultimately show ?thesis
    using assms(1) py_upper_ascii [of tier_nm lib] by (simp add: casing_of_def)
qed

lemma range12: "[0..<12] = [0, 1, 2, 3, 4, 5, 6, 7, 8, 9, 10, 11]"
  by (simp add: upt_rec)

lemma sample_loop_state: "snd (pattern_loop sample_lib (seed, 0)) = (seed, 12)"
  by (simp add: pattern_loop_def range12 sample_lib_def sample_choice_def Let_def split_beta)

text \<open>
  Claim C6. The encoder looks the tier up under \<open>tier_name.upper()\<close>. It raises
  \<open>KeyError\<close>, the spec's \<open>UnknownTierError\<close>, exactly when the upper-cased name is none
  of the four keys of \<open>USER_TIERS\<close>, and then before anything else happens (the generator
  is untouched); \<open>ROOKIE\<close> is such a name. Every spelling of \<open>Archivist\<close>,
  \<open>Orchestrator\<close>, \<open>Godfather\<close> or \<open>Entity\<close> in upper and lower case letters is
  found.
\<close>

theorem generate_membership_key_tier_lookup:
  "(fst (generate_membership_key lib user_id tier_nm registration_date user_attributes st)
       = Inl KeyError
     \<longleftrightarrow> py_upper lib tier_nm \<notin> set (map fst USER_TIERS))
   \<and> (py_upper lib tier_nm \<notin> set (map fst USER_TIERS) \<longrightarrow>
        generate_membership_key lib user_id tier_nm registration_date user_attributes st
          = (Inl KeyError, st))
   \<and> (casing_of tier_nm nm \<and> nm \<in> set (map (tier_name \<circ> snd) USER_TIERS) \<longrightarrow>
        map_of USER_TIERS (py_upper lib tier_nm) \<noteq> None
        \<and> fst (generate_membership_key lib user_id tier_nm registration_date user_attributes st)
            \<noteq> Inl KeyError)
   \<and> generate_membership_key lib user_id (pstr ''ROOKIE'') registration_date user_attributes st
       = (Inl KeyError, st)"
proof -
  have none: "py_upper lib tier_nm \<notin> set (map fst USER_TIERS) \<Longrightarrow>
        generate_membership_key lib user_id tier_nm registration_date user_attributes st
          = (Inl KeyError, st)" for tier_nm
    by (simp add: generate_membership_key_def map_of_eq_None_iff [symmetric]
        del: map_of_eq_None_iff)
  have some: "fst (generate_membership_key lib user_id tier_nm registration_date
                     user_attributes st) \<noteq> Inl KeyError"
    if "py_upper lib tier_nm \<in> set (map fst USER_TIERS)"
  proof -
    from that obtain tier where t: "map_of USER_TIERS (py_upper lib tier_nm) = Some tier"
      by (cases "map_of USER_TIERS (py_upper lib tier_nm)")
         (auto simp: map_of_eq_None_iff)
    show ?thesis
    proof (cases "timestamp_str registration_date")
      case (Inl e)
      from generate_membership_key_no_timestamp
             [OF this, of lib user_id tier_nm user_attributes st] t
      show ?thesis by auto
    next
      case (Inr ts)
      show ?thesis
      proof (cases "encodable user_id")
        case True
        from generate_membership_key_found [OF t True Inr, of user_attributes st]
        show ?thesis by (auto simp: Let_def)
      next
        case False
        with t show ?thesis
          by (simp add: generate_membership_key_def create_user_hash_def)
      qed
    qed
  qed
  have rookie: "py_upper lib (pstr ''ROOKIE'') \<notin> set (map fst USER_TIERS)"
    by (simp add: py_upper_def upper_char_def USER_TIERS_def pstr_def)
  have casing: "map_of USER_TIERS (py_upper lib tier_nm) \<noteq> None"
    if "casing_of tier_nm nm \<and> nm \<in> set (map (tier_name \<circ> snd) USER_TIERS)"
    using tier_names_upper [of tier_nm nm lib] that
    by (simp add: map_of_eq_None_iff)
  show ?thesis
    using none [of tier_nm] none [OF rookie] some casing
    by (auto simp: map_of_eq_None_iff)
qed

text \<open>The theorem at \<open>ROOKIE\<close> and at \<open>gOdFaThEr\<close>.\<close>

theorem generate_membership_key_tier_lookup_witness:
  "generate_membership_key sample_lib (pstr ''alice123'') (pstr ''ROOKIE'') march15 None
       (pstr ''boot'', 0)
     = (Inl KeyError, (pstr ''boot'', 0))
   \<and> casing_of (pstr ''gOdFaThEr'') (pstr ''Godfather'')
   \<and> map_of USER_TIERS (py_upper sample_lib (pstr ''gOdFaThEr'')) \<noteq> None
   \<and> fst (generate_membership_key sample_lib (pstr ''alice123'') (pstr ''gOdFaThEr'') march15 None
           (pstr ''boot'', 0)) \<noteq> Inl KeyError"
proof -
  have c: "casing_of (pstr ''gOdFaThEr'') (pstr ''Godfather'')"
    by (simp add: casing_of_def ascii_fold_def pstr_def)
  have n: "pstr ''Godfather'' \<in> set (map (tier_name \<circ> snd) USER_TIERS)"
    by (simp add: USER_TIERS_def)
  from generate_membership_key_tier_lookup
         [of sample_lib "pstr ''alice123''" "pstr ''gOdFaThEr''" march15 None "(pstr ''boot'', 0)"
             "pstr ''Godfather''"] c n
  show ?thesis by blast
qed

text \<open>
  Claim C7. The key the encoder returns does not depend on the state the generator is in
  when the encoder is called: \<open>random.seed\<close> overwrites it. So two calls with the same
  user id, tier name, date (with its timestamp) and attributes return the same key, whatever
  ran before or between them.
\<close>

theorem generate_membership_key_deterministic:
  "fst (generate_membership_key lib user_id tier_nm registration_date user_attributes st1)
     = fst (generate_membership_key lib user_id tier_nm registration_date user_attributes st2)"
  by (rule generate_membership_key_any_state)

text \<open>The theorem at two different generator states.\<close>

theorem generate_membership_key_deterministic_witness:
  "fst (generate_membership_key sample_lib (pstr ''alice123'') (pstr ''Archivist'') march15 None
          (pstr ''boot'', 0))
     = fst (generate_membership_key sample_lib (pstr ''alice123'') (pstr ''Archivist'') march15 None
          (pstr ''user71710460800.0'', 12))"
  by (rule generate_membership_key_deterministic)

text \<open>
  Claim C8, as the code has it. The result of every call, to the encoder, the decoder or the
  presentation adapter, is a function of its arguments alone: it is the same from any state of
  the process-wide generator. The decoder and the adapter leave the generator as they found
  it. The encoder does not: once the timestamp is taken, the tier found and the user id
  hashed, it leaves the generator in the state reached from
  \<open>random.seed(user_id + str(timestamp))\<close> by the twelve draws, whatever the state was
  before. When the encoder raises before that (\<open>timestamp()\<close> raises, the tier is unknown,
  the user id does not encode), the state is as it was.
\<close>

theorem calls_and_generator_state:
  "fst (perform lib c st) = fst (perform lib c st')
   \<and> snd (perform lib (Decode membership_key) st) = st
   \<and> snd (perform lib (Describe membership_key) st) = st
   \<and> snd (perform lib (Encode user_id tier_nm registration_date user_attributes) st) =
       (case timestamp_str registration_date of
          Inl e \<Rightarrow> st
        | Inr ts \<Rightarrow>
            if map_of USER_TIERS (py_upper lib tier_nm) = None \<or> \<not> encodable user_id then st
            else snd (pattern_loop lib (random_seed lib (user_id @ ts))))"
proof (intro conjI)
  show "fst (perform lib c st) = fst (perform lib c st')"
  proof (cases c)
    case (Encode u t d a)
    with generate_membership_key_any_state [of lib u t d a st st'] show ?thesis
      by (simp add: split_beta)
  qed simp_all
  show "snd (perform lib (Decode membership_key) st) = st" by simp
  show "snd (perform lib (Describe membership_key) st) = st" by simp
  show "snd (perform lib (Encode user_id tier_nm registration_date user_attributes) st) =
       (case timestamp_str registration_date of
          Inl e \<Rightarrow> st
        | Inr ts \<Rightarrow>
            if map_of USER_TIERS (py_upper lib tier_nm) = None \<or> \<not> encodable user_id then st
            else snd (pattern_loop lib (random_seed lib (user_id @ ts))))"
    using generate_membership_key_state
            [of lib user_id tier_nm registration_date user_attributes st]
    by (simp add: split_beta)
qed

text \<open>The theorem at \<open>alice123\<close>: on 15 March 2024 the generator ends twelve draws after
  the seed \<open>alice1231710460800.0\<close>; on 1 January of the year 1 the encoder raises
  \<open>ValueError\<close> and the generator is as it was; decoding the Godfather key leaves it as it
  was.\<close>

theorem calls_and_generator_state_witness:
  "snd (perform sample_lib (Encode (pstr ''alice123'') (pstr ''Archivist'') march15 None)
          (pstr ''boot'', 0))
     = (pstr ''alice1231710460800.0'', 12)
   \<and> perform sample_lib (Encode (pstr ''alice123'') (pstr ''Archivist'') year_one None)
          (pstr ''boot'', 0)
     = (Encoded (Inl ValueError), (pstr ''boot'', 0))
   \<and> snd (perform sample_lib (Decode godfather_key) (pstr ''boot'', 0)) = (pstr ''boot'', 0)
   \<and> snd (perform sample_lib (Describe godfather_key) (pstr ''boot'', 0)) = (pstr ''boot'', 0)"
proof -
  have t: "map_of USER_TIERS (py_upper sample_lib (pstr ''Archivist'')) \<noteq> None"
    by (simp add: py_upper_def upper_char_def USER_TIERS_def pstr_def)
  have e: "encodable (pstr ''alice123'')"
    by (simp add: encodable_def pstr_def)
  have r: "random_seed sample_lib s = (s, 0)" for s
    by (simp add: sample_lib_def)
  have one: "generate_membership_key sample_lib (pstr ''alice123'') (pstr ''Archivist'') year_one
               None (pstr ''boot'', 0) = (Inl ValueError, (pstr ''boot'', 0))"
    by (simp add: generate_membership_key_def year_one_def py_upper_def upper_char_def
        USER_TIERS_def create_user_hash_def encodable_def encode_tier_def py_getitem_def
        ascii_uppercase_def pstr_def Let_def)
  from calls_and_generator_state
         [of sample_lib _ "(pstr ''boot'', 0)" "(pstr ''boot'', 0)" godfather_key
             "pstr ''alice123''" "pstr ''Archivist''" march15 None]
  have "snd (perform sample_lib (Encode (pstr ''alice123'') (pstr ''Archivist'') march15 None)
          (pstr ''boot'', 0))
     = (pstr ''alice1231710460800.0'', 12)"
    and "snd (perform sample_lib (Decode godfather_key) (pstr ''boot'', 0)) = (pstr ''boot'', 0)"
    and "snd (perform sample_lib (Describe godfather_key) (pstr ''boot'', 0)) = (pstr ''boot'', 0)"
    using t e by (simp_all add: r sample_loop_state march15_def pstr_def)
  with one show ?thesis by simp
qed

text \<open>Claim C8 as stated fails: a generator seeded with \<open>boot\<close> is in another state
  after the encoder has run.\<close>

theorem generate_membership_key_changes_generator:
  "snd (generate_membership_key sample_lib (pstr ''alice123'') (pstr ''Archivist'') march15 None
          (pstr ''boot'', 0))
     \<noteq> (pstr ''boot'', 0)"
proof -
  have t: "map_of USER_TIERS (py_upper sample_lib (pstr ''Archivist'')) \<noteq> None"
    by (simp add: py_upper_def upper_char_def USER_TIERS_def pstr_def)
  have e: "encodable (pstr ''alice123'')"
    by (simp add: encodable_def pstr_def)
  have r: "random_seed sample_lib s = (s, 0)" for s
    by (simp add: sample_lib_def)
  show ?thesis
    unfolding generate_membership_key_state using t e
    by (simp add: r sample_loop_state march15_def)
qed

section \<open>Encoding, then decoding\<close>

text \<open>Splitting at a one-character separator.\<close>

lemma startswith_single: "startswith (x # xs) [c] \<longleftrightarrow> x = c"
  by (simp add: startswith_def)

lemma py_find_absent: "c \<notin> set s \<Longrightarrow> py_find [c] s = None"
  by (induction s) (auto simp: startswith_single)

lemma py_find_first: "c \<notin> set a \<Longrightarrow> py_find [c] (a @ c # rest) = Some (length a)"
  by (induction a) (auto simp: startswith_single)

lemma py_contains_single: "py_contains [c] s \<longleftrightarrow> c \<in> set s"
proof (cases "c \<in> set s")
  case True
  then obtain a rest where "s = a @ c # rest" and "c \<notin> set a"
    by (auto dest: split_list_first)
  then show ?thesis by (simp add: py_contains_def py_find_first)
next
  case False
  then show ?thesis by (simp add: py_contains_def py_find_absent)
qed

lemma split_no_separator: "c \<notin> set s \<Longrightarrow> split_nonempty [c] s = [s]"
  by (simp add: split_nonempty.simps [of "[c]" s] py_find_absent)

lemma split_at_first:
  "c \<notin> set a \<Longrightarrow> split_nonempty [c] (a @ c # rest) = a # split_nonempty [c] rest"
  by (simp add: split_nonempty.simps [of "[c]" "a @ c # rest"] py_find_first)

lemma split_length: "length (split_nonempty [c] s) = Suc (count_list s c)"
proof (induction s rule: length_induct)
  case (1 s)
  show ?case
  proof (cases "c \<in> set s")
    case False
    then show ?thesis by (simp add: split_no_separator count_list_0_iff)
  next
    case True
    then obtain a rest where s: "s = a @ c # rest" and a: "c \<notin> set a"
      by (auto dest: split_list_first)
    then have "length rest < length s" by simp
    with 1 have "length (split_nonempty [c] rest) = Suc (count_list rest c)" by blast
    with s a show ?thesis by (simp add: split_at_first count_list_0_iff)
  qed
qed

lemma split_five:
  assumes "c \<notin> set A" "c \<notin> set B" "c \<notin> set C" "c \<notin> set D" "c \<notin> set E"
  shows "split_nonempty [c] (A @ [c] @ B @ [c] @ C @ [c] @ D @ [c] @ E) = [A, B, C, D, E]"
  using assms by (simp add: split_at_first split_no_separator)

text \<open>The table's entries, and where the decoder finds them.\<close>

lemma table_lookup_cases:
  assumes "map_of USER_TIERS k = Some tier"
  shows "(k = pstr ''ARCHIVIST'' \<and> tier = \<lparr>tier_id = 1, tier_name = pstr ''Archivist'',
            tier_separator = pstr ''-'', tier_prefix = pstr ''ARK''\<rparr>)
       \<or> (k = pstr ''ORCHESTRATOR'' \<and> tier = \<lparr>tier_id = 2, tier_name = pstr ''Orchestrator'',
            tier_separator = pstr '':'', tier_prefix = pstr ''ORC''\<rparr>)
       \<or> (k = pstr ''GODFATHER'' \<and> tier = \<lparr>tier_id = 3, tier_name = pstr ''Godfather'',
            tier_separator = [8734], tier_prefix = pstr ''GOD''\<rparr>)
       \<or> (k = pstr ''ENTITY'' \<and> tier = \<lparr>tier_id = 4, tier_name = pstr ''Entity'',
            tier_separator = [10209], tier_prefix = pstr ''NXS''\<rparr>)"
proof -
  from assms have "(k, tier) \<in> set USER_TIERS" by (rule map_of_SomeD)
  then show ?thesis unfolding USER_TIERS_def by simp
qed

lemma pstr_separators: "pstr ''-'' = [45]" "pstr '':'' = [58]"
  by (simp_all add: pstr_def)

lemma pstr_prefixes:
  "pstr ''ARK'' = [65, 82, 75]" "pstr ''ORC'' = [79, 82, 67]"
  "pstr ''GOD'' = [71, 79, 68]" "pstr ''NXS'' = [78, 88, 83]"
  by (simp_all add: pstr_def)

lemma find_tier_of_prefixed:
  assumes "map_of USER_TIERS k = Some tier" and "tier_separator tier = [c]" and "c \<in> set rest"
  shows "find_tier (tier_prefix tier @ rest) = Some (k, tier)"
proof -
  have contains: "py_contains [c] (p @ rest)" for p
    using assms(3) by (simp add: py_contains_single)
  from table_lookup_cases [OF assms(1)] show ?thesis
  proof (elim disjE conjE)
    assume "k = pstr ''ARCHIVIST''"
      and "tier = \<lparr>tier_id = 1, tier_name = pstr ''Archivist'',
            tier_separator = pstr ''-'', tier_prefix = pstr ''ARK''\<rparr>"
    with assms(2) contains [of "pstr ''ARK''"] show ?thesis
      by (simp add: find_tier_def USER_TIERS_def startswith_def pstr_separators pstr_prefixes)
  next
    assume "k = pstr ''ORCHESTRATOR''"
      and "tier = \<lparr>tier_id = 2, tier_name = pstr ''Orchestrator'',
            tier_separator = pstr '':'', tier_prefix = pstr ''ORC''\<rparr>"
    with assms(2) contains [of "pstr ''ORC''"] show ?thesis
      by (simp add: find_tier_def USER_TIERS_def startswith_def pstr_separators pstr_prefixes)
  next
    assume "k = pstr ''GODFATHER''"
      and "tier = \<lparr>tier_id = 3, tier_name = pstr ''Godfather'',
            tier_separator = [8734], tier_prefix = pstr ''GOD''\<rparr>"
    with assms(2) contains [of "pstr ''GOD''"] show ?thesis
      by (simp add: find_tier_def USER_TIERS_def startswith_def pstr_separators pstr_prefixes)
  next
    assume "k = pstr ''ENTITY''"
      and "tier = \<lparr>tier_id = 4, tier_name = pstr ''Entity'',
            tier_separator = [10209], tier_prefix = pstr ''NXS''\<rparr>"
    with assms(2) contains [of "pstr ''NXS''"] show ?thesis
      by (simp add: find_tier_def USER_TIERS_def startswith_def pstr_separators pstr_prefixes)
  qed
qed

lemma separator_not_hex:
  assumes "map_of USER_TIERS k = Some tier" and "tier_separator tier = [c]"
  shows "\<not> is_hex_upper c"
  using table_lookup_cases [OF assms(1)] assms(2)
  by (auto simp: is_hex_upper_def pstr_separators)

lemma checksum_is_hex: "list_all is_hex_upper (calculate_checksum s)"
proof -
  let ?w = "weighted_sum s"
  have a: "?w mod 36 < 256" and b: "(?w * 13) mod 36 < 256"
    by (rule less_trans [OF mod_less_divisor]; simp)+
  then show ?thesis
    by (simp add: calculate_checksum_def Let_def format_X_below_256 hex_of_residue_hex
        del: mod_less_divisor)
qed

text \<open>
  What the decoder makes of a key the encoder returned: the key is the four segments and the
  checksum with the tier's separator between them, so it holds the separator at least four
  times. When it holds it exactly four times the decoder reports it valid, with the tier's
  name and rank; when a segment holds the separator too, the key splits into more than five
  parts and the decoder reports \<open>Invalid key structure\<close>.
\<close>

lemma roundtrip_characterised:
  assumes t: "map_of USER_TIERS (py_upper lib tier_nm) = Some tier"
    and sep: "tier_separator tier = [c]"
    and g: "generate_membership_key lib user_id tier_nm registration_date user_attributes st
              = (Inr key, st')"
  shows "(count_list key c = 4 \<longrightarrow>
            (\<exists>v. validate_membership_key lib key = Inr (Valid v)
                 \<and> v_tier_name v = py_upper lib tier_nm \<and> v_tier_level v = tier_id tier))
       \<and> (count_list key c \<noteq> 4 \<longrightarrow>
            validate_membership_key lib key = Inr (Invalid (pstr ''Invalid key structure'')))"
proof -
  have enc: "encodable user_id"
  proof (rule ccontr)
    assume "\<not> encodable user_id"
    with t g show False by (simp add: generate_membership_key_def create_user_hash_def)
  qed
  obtain ts where ts: "timestamp_str registration_date = Inr ts"
  proof (cases "timestamp_str registration_date")
    case (Inl e)
    from generate_membership_key_no_timestamp [OF this, of lib user_id tier_nm user_attributes st]
      g
    show ?thesis by auto
  qed
  define h where "h = py_upper lib (take 6 (sha256_hexdigest lib user_id))"
  define loop where "loop = pattern_loop lib (random_seed lib (user_id @ ts))"
  define A where "A = tier_prefix tier @ take 3 h"
  define B where "B = (64 + tier_id tier) # take 4 (fst loop)"
  define C where "C = encode_timestamp registration_date"
  define D where "D = drop 4 (take 8 (fst loop))"
  from generate_membership_key_found [OF t enc ts, of user_attributes st] g
  obtain p where key: "key = format_key A B C D p (calculate_checksum (A @ B @ C @ D @ p)) tier"
    by (auto simp: Let_def h_def loop_def A_def B_def C_def D_def)
  define CS where "CS = calculate_checksum (A @ B @ C @ D @ p)"
  have shape: "key = A @ [c] @ B @ [c] @ C @ [c] @ (D @ p) @ [c] @ CS"
    by (simp add: key format_key_def sep CS_def)
  have cs: "c \<notin> set CS"
    using checksum_is_hex [of "A @ B @ C @ D @ p"] separator_not_hex [OF t sep]
    by (auto simp: CS_def list_all_iff)
  have count: "count_list key c
                 = 4 + count_list A c + count_list B c + count_list C c + count_list (D @ p) c"
    using cs by (simp add: shape count_list_0_iff)
  have found: "find_tier key = Some (py_upper lib tier_nm, tier)"
    using find_tier_of_prefixed [OF t sep, of "take 3 h @ [c] @ B @ [c] @ C @ [c] @ (D @ p) @ [c] @ CS"]
    by (simp add: shape A_def)
  have tid: "1 \<le> tier_id tier \<and> tier_id tier \<le> 4"
    using table_lookup_cases [OF t] by auto
  have first: "py_getitem B 0 = Inr (64 + tier_id tier)"
    by (simp add: B_def py_getitem_def)
  have idx: "py_find [64 + tier_id tier] ascii_uppercase = Some (tier_id tier - 1)"
    using tid by (simp add: rank_letter_index)
  show ?thesis
  proof (intro conjI impI)
    assume "count_list key c = 4"
    with count have "c \<notin> set A" "c \<notin> set B" "c \<notin> set C" "c \<notin> set (D @ p)"
      by (simp_all add: count_list_0_iff [symmetric] del: count_list_0_iff)
    from split_five [OF this cs]
    have "py_split (tier_separator tier) key = Inr [A, B, C, D @ p, CS]"
      by (simp add: py_split_def sep shape)
    from validate_on_five_segments [OF found this, of lib]
    show "\<exists>v. validate_membership_key lib key = Inr (Valid v)
                 \<and> v_tier_name v = py_upper lib tier_nm \<and> v_tier_level v = tier_id tier"
      using first idx tid by (simp add: CS_def)
  next
    assume "count_list key c \<noteq> 4"
    with count have "length (split_nonempty [c] key) \<noteq> 5"
      by (simp add: split_length)
    then show "validate_membership_key lib key = Inr (Invalid (pstr ''Invalid key structure''))"
      using found by (simp add: validate_membership_key_def py_split_def sep)
  qed
qed

lemmas encode_defs =
  generate_membership_key_def USER_TIERS_def py_upper_def upper_char_def create_user_hash_def
  encodable_def sample_lib_def sample_sha256_def encode_tier_def py_getitem_def
  ascii_uppercase_def digits_def SPECIAL_CHARS_def encode_timestamp_def format_02X_def
  format_X.simps hex_digit_def generate_unique_pattern_def pattern_loop_def range12
  sample_choice_def sample_draws_def nth_or_zero_def generate_personal_element_def
  calculate_checksum_def weighted_sum_def format_key_def march15_def pstr_def Let_def

lemma user7_key:
  "generate_membership_key sample_lib (pstr ''user7'') (pstr ''Archivist'') march15 None
       (pstr ''boot'', 0)
     = (Inr (pstr ''ARK326-A6EZ--1830F-MQG@32-148''), (pstr ''user71710460800.0'', 12))"
  by (simp add: encode_defs)

lemma user7_key_rejected:
  "validate_membership_key lib (pstr ''ARK326-A6EZ--1830F-MQG@32-148'')
     = Inr (Invalid (pstr ''Invalid key structure''))"
  by (simp add: run_defs)

lemma user7_key_splits:
  "py_split (pstr ''-'') (pstr ''ARK326-A6EZ--1830F-MQG@32-148'')
     = Inr [pstr ''ARK326'', pstr ''A6EZ'', [], pstr ''1830F'', pstr ''MQG@32'', pstr ''148'']"
  by (simp add: run_defs)

text \<open>
  Without attributes, and with the library keeping its promises, the only characters of a key
  that can be the separator are the fourth and the eighth of the pattern, the two that are
  drawn from \<open>SPECIAL_CHARS\<close> and go into the key: the round trip fails exactly when one of
  them is the tier's separator. \<open>SPECIAL_CHARS\<close> holds the separators of Archivist and
  Orchestrator, \<open>-\<close> and \<open>:\<close>, and no character outside ASCII; so the round trip always
  succeeds for Godfather and Entity.
\<close>

lemma pattern_loop_chars:
  assumes "choice_in_seq lib"
  shows "\<exists>p0 p1 p2 p3 p4 p5 p6 p7 p8 p9 p10 p11.
           fst (pattern_loop lib st0) = [p0, p1, p2, p3, p4, p5, p6, p7, p8, p9, p10, p11]
           \<and> p0 \<in> set (ascii_uppercase @ digits) \<and> p1 \<in> set (ascii_uppercase @ digits)
           \<and> p2 \<in> set (ascii_uppercase @ digits) \<and> p3 \<in> set SPECIAL_CHARS
           \<and> p4 \<in> set (ascii_uppercase @ digits) \<and> p5 \<in> set (ascii_uppercase @ digits)
           \<and> p6 \<in> set (ascii_uppercase @ digits) \<and> p7 \<in> set SPECIAL_CHARS"
proof -
  have special: "SPECIAL_CHARS \<noteq> []" and chars: "ascii_uppercase @ digits \<noteq> []"
    by (simp_all add: SPECIAL_CHARS_def ascii_uppercase_def pstr_def)
  have s: "fst (random_choice lib st SPECIAL_CHARS) \<in> set SPECIAL_CHARS" for st
    using assms special unfolding choice_in_seq_def by blast
  have c: "fst (random_choice lib st (ascii_uppercase @ digits)) \<in> set (ascii_uppercase @ digits)"
    for st
    using assms chars unfolding choice_in_seq_def by blast
  show ?thesis
    unfolding pattern_loop_def range12 Let_def
    by (simp add: split_beta s c del: set_append)
qed

lemma sample_lib_keeps_promises: "choice_in_seq sample_lib \<and> hexdigest_ok sample_lib"
proof -
  have zeros: "list_all is_hex_lower (replicate 64 48)"
    by (simp add: list_all_iff is_hex_lower_def)
  have "list_all is_hex_lower (sample_sha256 s) \<and> length (sample_sha256 s) = 64" for s
    using zeros by (simp add: sample_sha256_def pstr_def is_hex_lower_def)
  then show ?thesis
    by (simp add: choice_in_seq_def hexdigest_ok_def sample_lib_def sample_choice_def)
qed

lemma alnum_range:
  "x \<in> set (ascii_uppercase @ digits) \<Longrightarrow> (65 \<le> x \<and> x \<le> 90) \<or> (48 \<le> x \<and> x \<le> 57)"
  by (auto simp: ascii_uppercase_def digits_def pstr_def)

lemma separator_cases:
  assumes "map_of USER_TIERS k = Some tier" and "tier_separator tier = [c]"
  shows "c = 45 \<or> c = 58 \<or> c = 8734 \<or> c = 10209"
  using table_lookup_cases [OF assms(1)] assms(2) by (auto simp: pstr_separators)

lemma separator_not_in_prefix:
  assumes "map_of USER_TIERS k = Some tier" and "tier_separator tier = [c]"
  shows "c \<notin> set (tier_prefix tier)"
  using table_lookup_cases [OF assms(1)] assms(2) by (auto simp: pstr_separators pstr_prefixes)

lemma upper_char_hex: "is_hex_lower c \<Longrightarrow> list_all is_hex_upper (upper_char lib c)"
  by (auto simp: is_hex_lower_def is_hex_upper_def upper_char_def)

lemma py_upper_hex: "list_all is_hex_lower s \<Longrightarrow> list_all is_hex_upper (py_upper lib s)"
  by (induction s) (simp_all add: py_upper_def upper_char_hex)

lemma user_hash_is_hex:
  assumes "hexdigest_ok lib"
  shows "list_all is_hex_upper (py_upper lib (take 6 (sha256_hexdigest lib user_id)))"
proof -
  from assms have "list_all is_hex_lower (sha256_hexdigest lib user_id)"
    by (simp add: hexdigest_ok_def)
  then have "list_all is_hex_lower (take 6 (sha256_hexdigest lib user_id))"
    by (auto simp: list_all_iff dest: in_set_takeD)
  then show ?thesis by (rule py_upper_hex)
qed

lemma hex_has_no_separator:
  assumes "map_of USER_TIERS k = Some tier" and "tier_separator tier = [c]"
    and "list_all is_hex_upper s"
  shows "c \<notin> set s"
  using separator_not_hex [OF assms(1,2)] assms(3) by (auto simp: list_all_iff)

lemma roundtrip_without_attributes:
  assumes choice: "choice_in_seq lib" and digest: "hexdigest_ok lib"
    and date: "datetime_fields_ok registration_date"
    and ts: "timestamp_str registration_date = Inr ts"
    and enc: "encodable user_id"
    and t: "map_of USER_TIERS (py_upper lib tier_nm) = Some tier"
    and sep: "tier_separator tier = [c]"
  shows "\<exists>key p3 p7.
           fst (generate_membership_key lib user_id tier_nm registration_date None st) = Inr key
         \<and> p3 = fst (pattern_loop lib (random_seed lib (user_id @ ts))) ! 3
         \<and> p7 = fst (pattern_loop lib (random_seed lib (user_id @ ts))) ! 7
         \<and> p3 \<in> set SPECIAL_CHARS \<and> p7 \<in> set SPECIAL_CHARS
         \<and> validate_membership_key lib key =
             (if p3 = c \<or> p7 = c then Inr (Invalid (pstr ''Invalid key structure''))
              else Inr (Valid
                     \<lparr>v_user_id = pstr ''user_'' @ take 3 (py_upper lib (take 6 (sha256_hexdigest lib user_id))),
                      v_tier_name = py_upper lib tier_nm,
                      v_tier_level = tier_id tier,
                      v_registration_date =
                        parse_registration_date lib (encode_timestamp registration_date),
                      v_personal_element =
                        take 2 (py_upper lib (take 6 (sha256_hexdigest lib user_id)))\<rparr>))"
proof -
  define h where "h = py_upper lib (take 6 (sha256_hexdigest lib user_id))"
  define loop where "loop = pattern_loop lib (random_seed lib (user_id @ ts))"
  define A where "A = tier_prefix tier @ take 3 h"
  define C where "C = encode_timestamp registration_date"
  from pattern_loop_chars [OF choice, of "random_seed lib (user_id @ ts)"]
  obtain p0 p1 p2 p3 p4 p5 p6 p7 p8 p9 p10 p11 where
    pat: "fst loop = [p0, p1, p2, p3, p4, p5, p6, p7, p8, p9, p10, p11]"
    and a0: "p0 \<in> set (ascii_uppercase @ digits)" and a1: "p1 \<in> set (ascii_uppercase @ digits)"
    and a2: "p2 \<in> set (ascii_uppercase @ digits)" and s3: "p3 \<in> set SPECIAL_CHARS"
    and a4: "p4 \<in> set (ascii_uppercase @ digits)" and a5: "p5 \<in> set (ascii_uppercase @ digits)"
    and a6: "p6 \<in> set (ascii_uppercase @ digits)" and s7: "p7 \<in> set SPECIAL_CHARS"
    unfolding loop_def by blast
  define B where "B = [64 + tier_id tier, p0, p1, p2, p3]"
  define DP where "DP = [p4, p5, p6, p7] @ take 2 h"
  define CS where "CS = calculate_checksum (A @ B @ C @ DP)"
  define key where "key = A @ [c] @ B @ [c] @ C @ [c] @ DP @ [c] @ CS"
  have pe: "generate_personal_element lib None user_id = Inr (take 2 h)"
    using enc by (simp add: generate_personal_element_def create_user_hash_def h_def)
  from generate_membership_key_found [OF t enc ts, of None st]
  have g: "fst (generate_membership_key lib user_id tier_nm registration_date None st) = Inr key"
    by (simp add: pe Let_def h_def [symmetric] loop_def [symmetric] pat format_key_def sep
        key_def CS_def A_def B_def C_def DP_def)
  have hhex: "list_all is_hex_upper h"
    unfolding h_def using digest by (rule user_hash_is_hex)
  have len_h: "length (take 2 h) \<le> 2" by simp
  have cA: "c \<notin> set A"
    using separator_not_in_prefix [OF t sep] hex_has_no_separator [OF t sep hhex]
    by (auto simp: A_def dest: in_set_takeD)
  have cC: "c \<notin> set C"
    unfolding C_def using encode_timestamp_is_hex [OF date] by (rule hex_has_no_separator [OF t sep])
  have cCS: "c \<notin> set CS"
    unfolding CS_def using checksum_is_hex by (rule hex_has_no_separator [OF t sep])
  have ch: "c \<notin> set (take 2 h)"
    using hex_has_no_separator [OF t sep hhex] by (auto dest: in_set_takeD)
  have tid: "1 \<le> tier_id tier \<and> tier_id tier \<le> 4"
    using table_lookup_cases [OF t] by auto
  have alnum: "x \<noteq> c" if "x \<in> set (ascii_uppercase @ digits)" for x
    using alnum_range [OF that] separator_cases [OF t sep] by auto
  have letter: "64 + tier_id tier \<noteq> c"
    using tid separator_cases [OF t sep] by auto
  have found: "find_tier key = Some (py_upper lib tier_nm, tier)"
    using find_tier_of_prefixed [OF t sep, of "take 3 h @ [c] @ B @ [c] @ C @ [c] @ DP @ [c] @ CS"]
    by (simp add: key_def A_def)
  have nth3: "fst loop ! 3 = p3" and nth7: "fst loop ! 7 = p7"
    by (simp_all add: pat)
  have idx: "py_find [64 + tier_id tier] ascii_uppercase = Some (tier_id tier - 1)"
    using tid by (simp add: rank_letter_index)
  have first: "py_getitem B 0 = Inr (64 + tier_id tier)"
    by (simp add: B_def py_getitem_def)
  have drop3: "drop 3 A = take 3 h"
    using table_lookup_cases [OF t] by (auto simp: A_def pstr_prefixes)
  have hlen: "length h \<ge> 6"
  proof -
    have "length (take 6 (sha256_hexdigest lib user_id)) = 6"
      using digest by (simp add: hexdigest_ok_def)
    moreover have "length (py_upper lib s) \<ge> length s" if "list_all is_hex_lower s" for s
      using that by (induction s) (auto simp: py_upper_def upper_char_def is_hex_lower_def)
    moreover have "list_all is_hex_lower (take 6 (sha256_hexdigest lib user_id))"
      using digest by (auto simp: hexdigest_ok_def list_all_iff dest: in_set_takeD)
    ultimately show ?thesis unfolding h_def by metis
  qed
  have tail: "slice_from_minus2 DP = take 2 h"
    using hlen by (simp add: slice_from_minus2_def DP_def min_def)
  have result: "validate_membership_key lib key =
             (if p3 = c \<or> p7 = c then Inr (Invalid (pstr ''Invalid key structure''))
              else Inr (Valid
                     \<lparr>v_user_id = pstr ''user_'' @ take 3 h, v_tier_name = py_upper lib tier_nm,
                      v_tier_level = tier_id tier,
                      v_registration_date = parse_registration_date lib C,
                      v_personal_element = take 2 h\<rparr>))"
  proof (cases "p3 = c \<or> p7 = c")
    case True
    have "count_list key c
            = 4 + count_list B c + count_list DP c"
      using cA cC cCS by (simp add: key_def count_list_0_iff)
    moreover have "count_list B c + count_list DP c \<noteq> 0"
      using True by (auto simp: B_def DP_def)
    ultimately have "length (split_nonempty [c] key) \<noteq> 5"
      by (simp add: split_length)
    with True show ?thesis
      using found by (simp add: validate_membership_key_def py_split_def sep)
  next
    case False
    have "c \<notin> set B" "c \<notin> set DP"
      using False letter alnum [OF a0] alnum [OF a1] alnum [OF a2] alnum [OF a4] alnum [OF a5]
        alnum [OF a6] ch
      by (auto simp: B_def DP_def)
    from split_five [OF cA this(1) cC this(2) cCS]
    have "py_split (tier_separator tier) key = Inr [A, B, C, DP, CS]"
      by (simp add: py_split_def sep key_def)
    from validate_on_five_segments [OF found this, of lib] False
    show ?thesis
      using first idx tid by (simp add: CS_def drop3 tail)
  qed
  show ?thesis
    using g s3 s7 result
    unfolding h_def [symmetric] loop_def [symmetric] C_def [symmetric] nth3 nth7
    by blast
qed

lemma special_chars_ascii: "x \<in> set SPECIAL_CHARS \<Longrightarrow> x < 128"
  by (auto simp: SPECIAL_CHARS_def pstr_def)

lemma roundtrip_non_ascii_separator:
  assumes choice: "choice_in_seq lib" and digest: "hexdigest_ok lib"
    and date: "datetime_fields_ok registration_date"
    and ts: "timestamp_str registration_date = Inr ts"
    and enc: "encodable user_id"
    and t: "map_of USER_TIERS (py_upper lib tier_nm) = Some tier"
    and sep: "tier_separator tier = [c]" and c: "128 \<le> c"
  shows "\<exists>key v.
           fst (generate_membership_key lib user_id tier_nm registration_date None st) = Inr key
         \<and> validate_membership_key lib key = Inr (Valid v)
         \<and> v_tier_name v = py_upper lib tier_nm \<and> v_tier_level v = tier_id tier"
proof -
  from roundtrip_without_attributes [OF choice digest date ts enc t sep, of st]
  obtain key p3 p7 where
    g: "fst (generate_membership_key lib user_id tier_nm registration_date None st) = Inr key"
    and s: "p3 \<in> set SPECIAL_CHARS" "p7 \<in> set SPECIAL_CHARS"
    and v: "validate_membership_key lib key =
             (if p3 = c \<or> p7 = c then Inr (Invalid (pstr ''Invalid key structure''))
              else Inr (Valid
                     \<lparr>v_user_id = pstr ''user_'' @ take 3 (py_upper lib (take 6 (sha256_hexdigest lib user_id))),
                      v_tier_name = py_upper lib tier_nm,
                      v_tier_level = tier_id tier,
                      v_registration_date =
                        parse_registration_date lib (encode_timestamp registration_date),
                      v_personal_element =
                        take 2 (py_upper lib (take 6 (sha256_hexdigest lib user_id)))\<rparr>))"
    by blast
  from s c special_chars_ascii have "p3 \<noteq> c" "p7 \<noteq> c" by fastforce+
  with g v show ?thesis by simp
qed

lemma separator_initial_rejected:
  "\<exists>key st'.
     generate_membership_key lib (pstr ''alice123'') (pstr ''Archivist'')
       (registration_date\<lparr>timestamp_str := Inr ts\<rparr>)
       (Some [(pstr ''name'', pstr ''-'')]) st = (Inr key, st')
     \<and> validate_membership_key lib key = Inr (Invalid (pstr ''Invalid key structure''))"
proof -
  let ?d = "registration_date\<lparr>timestamp_str := Inr ts\<rparr>"
  have ts: "timestamp_str ?d = Inr ts" by simp
  let ?t = "\<lparr>tier_id = 1, tier_name = pstr ''Archivist'', tier_separator = pstr ''-'',
             tier_prefix = pstr ''ARK''\<rparr>"
  let ?attrs = "Some [(pstr ''name'', pstr ''-'')]"
  have up: "py_upper lib (pstr ''Archivist'') = pstr ''ARCHIVIST''"
    by (simp add: py_upper_def upper_char_def pstr_def)
  have t: "map_of USER_TIERS (py_upper lib (pstr ''Archivist'')) = Some ?t"
    unfolding up by (simp add: USER_TIERS_def pstr_def)
  have sep: "tier_separator ?t = [45]"
    by (simp add: pstr_separators)
  have e: "encodable (pstr ''alice123'')"
    by (simp add: encodable_def pstr_def)
  have pe: "generate_personal_element lib ?attrs (pstr ''alice123'') = Inr [45]"
    by (simp add: generate_personal_element_def py_split_ws_def is_space_def initial_upper_def
        py_getitem_def upper_char_def pstr_def)
  from generate_membership_key_found [OF t e ts, of ?attrs st] pe
  obtain A B C D CS where
    g: "generate_membership_key lib (pstr ''alice123'') (pstr ''Archivist'') ?d ?attrs st
        = (Inr (format_key A B C D [45] CS ?t),
           snd (pattern_loop lib (random_seed lib (pstr ''alice123'' @ ts))))"
    by (auto simp: Let_def)
  have "count_list (format_key A B C D [45] CS ?t) 45 \<noteq> 4"
    by (simp add: format_key_def pstr_separators)
  with roundtrip_characterised [OF t sep g] g show ?thesis by blast
qed

lemma roundtrip_godfather_alice123:
  "\<exists>key v.
     fst (generate_membership_key sample_lib (pstr ''alice123'') (pstr ''godfather'') march15 None
            (pstr ''boot'', 0)) = Inr key
     \<and> validate_membership_key sample_lib key = Inr (Valid v)
     \<and> v_tier_name v = pstr ''GODFATHER'' \<and> v_tier_level v = 3"
proof -
  let ?t = "\<lparr>tier_id = 3, tier_name = pstr ''Godfather'', tier_separator = [8734],
             tier_prefix = pstr ''GOD''\<rparr>"
  have up: "py_upper sample_lib (pstr ''godfather'') = pstr ''GODFATHER''"
    by (simp add: py_upper_def upper_char_def pstr_def)
  have t: "map_of USER_TIERS (py_upper sample_lib (pstr ''godfather'')) = Some ?t"
    unfolding up by (simp add: USER_TIERS_def pstr_def)
  have d: "datetime_fields_ok march15"
    by (simp add: datetime_fields_ok_def march15_def)
  have e: "encodable (pstr ''alice123'')"
    by (simp add: encodable_def pstr_def)
  from sample_lib_keeps_promises have c: "choice_in_seq sample_lib" and h: "hexdigest_ok sample_lib"
    by simp_all
  have ts: "timestamp_str march15 = Inr (pstr ''1710460800.0'')"
    by (simp add: march15_def)
  from roundtrip_non_ascii_separator [OF c h d ts e t, of 8734 "(pstr ''boot'', 0)"]
  show ?thesis by (simp add: up)
qed

text \<open>
  Claim C1 does not hold of the code. For the user id \<open>user7\<close>, the tier \<open>Archivist\<close>,
  15 March 2024 and no attributes, the fourth character drawn is \<open>-\<close>, the Archivist
  separator: the key is \<open>ARK326-A6EZ--1830F-MQG@32-148\<close>, it splits into six parts, and the
  decoder reports \<open>Invalid key structure\<close>. The same happens, whatever the library
  computes and on every date whose timestamp is defined, when the name in the attributes
  starts with the separator.
\<close>

theorem roundtrip_fails_on_separator_draw:
  "generate_membership_key sample_lib (pstr ''user7'') (pstr ''Archivist'') march15 None
       (pstr ''boot'', 0)
     = (Inr (pstr ''ARK326-A6EZ--1830F-MQG@32-148''), (pstr ''user71710460800.0'', 12))
   \<and> py_split (pstr ''-'') (pstr ''ARK326-A6EZ--1830F-MQG@32-148'')
       = Inr [pstr ''ARK326'', pstr ''A6EZ'', [], pstr ''1830F'', pstr ''MQG@32'', pstr ''148'']
   \<and> validate_membership_key sample_lib (pstr ''ARK326-A6EZ--1830F-MQG@32-148'')
       = Inr (Invalid (pstr ''Invalid key structure''))
   \<and> (\<exists>key st'.
         generate_membership_key lib (pstr ''alice123'') (pstr ''Archivist'')
           (registration_date\<lparr>timestamp_str := Inr ts\<rparr>)
           (Some [(pstr ''name'', pstr ''-'')]) st = (Inr key, st')
         \<and> validate_membership_key lib key = Inr (Invalid (pstr ''Invalid key structure'')))"
  using user7_key user7_key_rejected [of sample_lib] user7_key_splits
    separator_initial_rejected [of lib ts registration_date st]
  by (intro conjI)

end
